theory Spec2Isabelle
  imports Main "HOL-Library.AList"
begin

section \<open>JavaScript containers\<close>

text \<open>
  A JavaScript \<open>Map\<close> keeps its entries in insertion order and \<open>forEach\<close> visits them in
  that order, so a \<open>Map\<close> is an association list: \<open>set\<close> on a key that is present
  replaces the value in place, on a new key it appends; \<open>delete\<close> drops the entry.
  A JavaScript \<open>Set\<close> is a list without repetitions, in insertion order.
\<close>

type_synonym ('k, 'v) js_map = "('k \<times> 'v) list"

definition map_has :: "('k, 'v) js_map \<Rightarrow> 'k \<Rightarrow> bool" where
  "map_has m k = (map_of m k \<noteq> None)"

definition map_get :: "('k, 'v) js_map \<Rightarrow> 'k \<Rightarrow> 'v option" where
  "map_get m k = map_of m k"

definition map_set :: "('k, 'v) js_map \<Rightarrow> 'k \<Rightarrow> 'v \<Rightarrow> ('k, 'v) js_map" where
  "map_set m k v = AList.update k v m"

definition map_delete :: "('k, 'v) js_map \<Rightarrow> 'k \<Rightarrow> ('k, 'v) js_map" where
  "map_delete m k = AList.delete k m"

type_synonym 'a js_set = "'a list"

definition set_has :: "'a js_set \<Rightarrow> 'a \<Rightarrow> bool" where
  "set_has xs x = (x \<in> set xs)"

definition set_add :: "'a js_set \<Rightarrow> 'a \<Rightarrow> 'a js_set" where
  "set_add xs x = (if x \<in> set xs then xs else xs @ [x])"

definition set_delete :: "'a js_set \<Rightarrow> 'a \<Rightarrow> 'a js_set" where
  "set_delete xs x = removeAll x xs"

definition set_size :: "'a js_set \<Rightarrow> nat" where
  "set_size xs = length xs"

section \<open>Recording service (src/services/recordingService.js)\<close>

text \<open>
  One entry of \<open>this.recordings\<close>. The \<open>command\<close> field of the source is the handle of
  the spawned ffmpeg process; it carries no data of the service and is left out.
  \<open>uuidv4()\<close>, the ISO timestamp and \<open>new Date()\<close> are inputs of the model; a time is
  a number of milliseconds, an \<open>int\<close>.
\<close>

record recording =
  rec_id :: string
  rec_streamKey :: string
  rec_userId :: string
  rec_filename :: string
  rec_path :: string
  rec_startTime :: int

definition startRecording ::
  "string \<Rightarrow> string \<Rightarrow> int \<Rightarrow> (string, recording) js_map \<Rightarrow> string \<Rightarrow> string
    \<Rightarrow> (string, recording) js_map \<times> bool" where
  "startRecording recordingId timestamp now recordings streamKey userId =
     (if map_has recordings streamKey then (recordings, False)
      else
        let filename = userId @ ''_'' @ timestamp @ ''_'' @ recordingId @ ''.mp4'';
            outputPath = ''../recordings/videos/'' @ filename
        in (map_set recordings streamKey
              \<lparr>rec_id = recordingId, rec_streamKey = streamKey, rec_userId = userId,
               rec_filename = filename, rec_path = outputPath, rec_startTime = now\<rparr>,
            True))"

section \<open>RTMP server: the table of active streams (src/routes/streamRoutes.js)\<close>

datatype role = RoleUser | RoleStreamer | RoleAdmin

text \<open>
  An entry of \<open>this.activeStreams\<close>, as the second \<open>prePublish\<close> handler builds it.
  \<open>viewers\<close> is a JavaScript number that only ever receives integer deltas; it is an
  \<open>int\<close> here.
\<close>

record streamData =
  sd_id :: string
  sd_streamKey :: string
  sd_userId :: string
  sd_userRole :: "role option"
  sd_path :: string
  sd_startTime :: int
  sd_viewers :: int
  sd_title :: string
  sd_description :: string
  sd_isPrivate :: bool

text \<open>Events that the RTMP server sends with \<open>this.io.emit\<close> (to every connected socket).\<close>

datatype rtmp_event =
  ViewerCountUpdate string int
  | StreamEnded string int int

text \<open>
  \<open>updateViewerCount(streamKey, delta)\<close>: the new state of \<open>activeStreams\<close>, the events
  emitted and the returned number. The source mutates the entry in place, which leaves
  its position in the \<open>Map\<close> unchanged, as \<open>map_set\<close> on a present key does.
\<close>

definition updateViewerCount ::
  "(string, streamData) js_map \<Rightarrow> string \<Rightarrow> int
    \<Rightarrow> (string, streamData) js_map \<times> rtmp_event list \<times> int" where
  "updateViewerCount activeStreams streamKey delta =
     (case map_get activeStreams streamKey of
        Some stream \<Rightarrow>
          let v = max 0 (sd_viewers stream + delta) in
          (map_set activeStreams streamKey (stream\<lparr>sd_viewers := v\<rparr>),
           [ViewerCountUpdate streamKey v], v)
      | None \<Rightarrow> (activeStreams, [], 0))"

text \<open>A sequence of \<open>updateViewerCount\<close> calls, each a stream key and a delta.\<close>

fun updateViewerCounts ::
  "(string, streamData) js_map \<Rightarrow> (string \<times> int) list \<Rightarrow> (string, streamData) js_map" where
  "updateViewerCounts activeStreams [] = activeStreams"
| "updateViewerCounts activeStreams ((streamKey, delta) # calls) =
     updateViewerCounts (fst (updateViewerCount activeStreams streamKey delta)) calls"

definition viewers_of :: "(string, streamData) js_map \<Rightarrow> string \<Rightarrow> int option" where
  "viewers_of activeStreams streamKey = map_option sd_viewers (map_get activeStreams streamKey)"

definition viewers_nonneg :: "(string, streamData) js_map \<Rightarrow> bool" where
  "viewers_nonneg activeStreams = list_all (\<lambda>(k, stream). 0 \<le> sd_viewers stream) activeStreams"

text \<open>
  A stream entry as the \<open>prePublish\<close> handler creates it when the publisher gives no
  title and no description: \<open>viewers: 0\<close>.
\<close>

definition fresh_stream :: "string \<Rightarrow> string \<Rightarrow> string \<Rightarrow> int \<Rightarrow> streamData" where
  "fresh_stream streamId streamKey userId now =
     \<lparr>sd_id = streamId, sd_streamKey = streamKey, sd_userId = userId, sd_userRole = None,
      sd_path = ''/live/'' @ streamKey, sd_startTime = now, sd_viewers = 0,
      sd_title = ''Untitled Stream'', sd_description = '''', sd_isPrivate = False\<rparr>"


section \<open>Users, stream documents and errors\<close>

text \<open>
  A user document (src/models/User.js) and a stream document as the database holds it,
  with the schema paths that the modelled functions read or write. Object ids are
  compared through \<open>toString()\<close> in the source and are strings here.
\<close>

record user =
  u_id :: string
  u_username :: string
  u_role :: role
  u_profilePicture :: string
  u_streamKey :: string
  u_followers :: "string list"

record stream_doc =
  st_id :: string
  st_user :: string
  st_streamKey :: string
  st_isPrivate :: bool
  st_startedAt :: int
  st_endedAt :: "int option"

text \<open>
  The RTMP server reads and writes \<open>stream.isLive\<close>, which is no path of the stream
  schema (the schema has \<open>status\<close>, \<open>isPrivate\<close>, \<open>startedAt\<close>, \<open>endedAt\<close> and others, but no
  \<open>isLive\<close>). So \<open>isLive\<close> is a property of the document object in memory only: it is
  \<open>undefined\<close> on a document that \<open>findOne\<close> returned or that \<open>new Stream({...})\<close> built,
  an assignment sets it on that object, and \<open>save()\<close> writes the schema paths and leaves
  it out. \<open>truthy\<close> is the truth value that JavaScript gives the property.
\<close>

record stream_obj = stream_doc +
  isLive :: "bool option"

definition loaded :: "stream_doc \<Rightarrow> stream_obj" where
  "loaded d = \<lparr>st_id = st_id d, st_user = st_user d, st_streamKey = st_streamKey d,
     st_isPrivate = st_isPrivate d, st_startedAt = st_startedAt d, st_endedAt = st_endedAt d,
     isLive = None\<rparr>"

definition saved :: "stream_obj \<Rightarrow> stream_doc" where
  "saved obj = \<lparr>st_id = st_id obj, st_user = st_user obj, st_streamKey = st_streamKey obj,
     st_isPrivate = st_isPrivate obj, st_startedAt = st_startedAt obj, st_endedAt = st_endedAt obj\<rparr>"

definition truthy :: "bool option \<Rightarrow> bool" where
  "truthy v = (v = Some True)"

text \<open>
  The source signals every failure with \<open>new Error(message)\<close>. One constructor stands
  for each message:
  \<^item> \<open>NotAuthenticated\<close>: 'Not authenticated';
  \<^item> \<open>StreamNotFound\<close>: 'Stream not found';
  \<^item> \<open>AccessDenied\<close>: 'Access to private stream denied';
  \<^item> \<open>MessageEmpty\<close>: 'Message cannot be empty' (the specification's ValidationError);
  \<^item> \<open>NotInRoom\<close>: 'Not in the stream room' (the specification's AuthorizationError
    of chat and reactions);
  \<^item> \<open>NoTokenProvided\<close>: 'No token provided';
  \<^item> \<open>InvalidToken\<close>: the error that \<open>jwt.verify\<close> throws;
  \<^item> \<open>UserNotFound\<close>: 'User not found';
  \<^item> \<open>UnauthorizedChannel\<close>: 'Unauthorized to stream to this channel';
  \<^item> \<open>StreamNotLive\<close>: 'Stream is not live';
  \<^item> \<open>AuthenticationRequired\<close>: 'Authentication required for private stream';
  \<^item> \<open>NotAuthorizedToView\<close>: 'Not authorized to view this private stream';
  \<^item> \<open>AuthenticationFailed\<close>: 'Authentication failed';
  \<^item> \<open>TypeError\<close>: a property read on \<open>undefined\<close> or \<open>null\<close>.
\<close>

datatype error =
  NotAuthenticated | StreamNotFound | AccessDenied | MessageEmpty | NotInRoom
  | NoTokenProvided | InvalidToken | UserNotFound | UnauthorizedChannel | StreamNotLive
  | AuthenticationRequired | NotAuthorizedToView | AuthenticationFailed | TypeError

section \<open>RTMP server: authentication and the stream life cycle (src/routes/streamRoutes.js)\<close>

text \<open>
  \<open>this.streamSessions\<close> holds two kinds of entries in the same \<open>Map\<close>: the first
  \<open>prePublish\<close> handler stores \<open>{id, streamId, userId, startTime, args}\<close> under the stream
  key, and \<open>authenticatePublish\<close> stores \<open>{type, streamKey, userId, userRole, startTime}\<close>
  under the connection id.
\<close>

datatype session =
  PublishSession string string string int
  | AuthSession string string string role int

text \<open>
  The collaborators of the server are inputs of the model: \<open>verify\<close> is
  \<open>jwt.verify(token, secret)\<close> followed by \<open>.id\<close> (\<open>None\<close> when it throws), \<open>users\<close> is
  \<open>User.findById\<close>, and the stream collection is a map from the stream key (which the
  schema declares unique) to the document, read by \<open>Stream.findOne({streamKey})\<close> and
  written by \<open>save()\<close>.
\<close>

record rtmp_state =
  streamSessions :: "(string, session) js_map"
  streams :: "string \<Rightarrow> stream_doc option"

text \<open>\<open>extractStreamKey\<close>: the part of the path after its last \<open>/\<close>.\<close>

definition extractStreamKey :: "string \<Rightarrow> string" where
  "extractStreamKey streamPath = rev (takeWhile (\<lambda>c. c \<noteq> CHR ''/'') (rev streamPath))"

text \<open>
  \<open>authenticateUser\<close>: \<open>null\<close> when there is no token (a missing or an empty one is falsy),
  when \<open>jwt.verify\<close> throws, or when the user does not exist.
\<close>

definition authenticateUser ::
  "(string \<Rightarrow> string option) \<Rightarrow> (string \<Rightarrow> user option) \<Rightarrow> string option \<Rightarrow> user option" where
  "authenticateUser verify users token =
     (case token of
        None \<Rightarrow> None
      | Some t \<Rightarrow>
          if t = [] then None
          else (case verify t of None \<Rightarrow> None | Some uid \<Rightarrow> users uid))"

text \<open>\<open>authenticatePublish(id, StreamPath, args)\<close>: the session table and the returned boolean.\<close>

definition authenticatePublish ::
  "(string \<Rightarrow> string option) \<Rightarrow> (string \<Rightarrow> user option) \<Rightarrow> int \<Rightarrow> (string, session) js_map
    \<Rightarrow> string \<Rightarrow> string \<Rightarrow> string option \<Rightarrow> (string, session) js_map \<times> bool" where
  "authenticatePublish verify users now sessions connId streamPath token =
     (let streamKey = extractStreamKey streamPath in
      case authenticateUser verify users token of
        None \<Rightarrow> (sessions, False)
      | Some user \<Rightarrow>
          if u_role user \<noteq> RoleStreamer \<and> u_role user \<noteq> RoleAdmin then (sessions, False)
          else if u_streamKey user \<noteq> streamKey then (sessions, False)
          else (map_set sessions connId
                  (AuthSession ''publish'' streamKey (u_id user) (u_role user) now), True))"

text \<open>
  \<open>authenticatePublisher(streamKey, token)\<close>, the check behind the first \<open>prePublish\<close>
  handler. \<open>newId\<close> is the id given to a stream document created on the first publish;
  the \<open>isLive: false\<close> passed to its constructor is no schema path and is dropped.
\<close>

definition authenticatePublisher ::
  "(string \<Rightarrow> string option) \<Rightarrow> (string \<Rightarrow> user option) \<Rightarrow> string \<Rightarrow> int
    \<Rightarrow> (string \<Rightarrow> stream_doc option) \<Rightarrow> string \<Rightarrow> string option
    \<Rightarrow> (string \<Rightarrow> stream_doc option) \<times> (error + user \<times> stream_obj)" where
  "authenticatePublisher verify users newId now db streamKey token =
     (case token of
        None \<Rightarrow> (db, Inl NoTokenProvided)
      | Some t \<Rightarrow>
          if t = [] then (db, Inl NoTokenProvided)
          else (case verify t of
            None \<Rightarrow> (db, Inl InvalidToken)
          | Some uid \<Rightarrow>
              (case users uid of
                 None \<Rightarrow> (db, Inl UserNotFound)
               | Some user \<Rightarrow>
                   (case db streamKey of
                      None \<Rightarrow>
                        let newStream = \<lparr>st_id = newId, st_user = u_id user, st_streamKey = streamKey,
                              st_isPrivate = False, st_startedAt = now, st_endedAt = None,
                              isLive = None\<rparr>
                        in (db(streamKey \<mapsto> saved newStream), Inr (user, newStream))
                    | Some d \<Rightarrow>
                        let stream = loaded d in
                        if st_user stream \<noteq> u_id user \<and> u_role user \<noteq> RoleAdmin
                        then (db, Inl UnauthorizedChannel)
                        else (db, Inr (user, stream))))))"

text \<open>
  The first \<open>prePublish\<close> handler. The boolean says whether the connection was rejected
  (\<open>session.reject()\<close> in the \<open>catch\<close> block). It sets \<open>isLive\<close> and \<open>startedAt\<close> on the
  document object and saves it, which stores \<open>startedAt\<close>.
\<close>

definition prePublish ::
  "(string \<Rightarrow> string option) \<Rightarrow> (string \<Rightarrow> user option) \<Rightarrow> string \<Rightarrow> int
    \<Rightarrow> rtmp_state \<Rightarrow> string \<Rightarrow> string \<Rightarrow> string option \<Rightarrow> rtmp_state \<times> bool" where
  "prePublish verify users newId now s connId streamPath token =
     (let streamKey = extractStreamKey streamPath in
      case authenticatePublisher verify users newId now (streams s) streamKey token of
        (db, Inl e) \<Rightarrow> (s\<lparr>streams := db\<rparr>, True)
      | (db, Inr (user, stream)) \<Rightarrow>
          (\<lparr>streamSessions = map_set (streamSessions s) streamKey
               (PublishSession connId (st_id stream) (u_id user) now),
            streams = db(streamKey \<mapsto> saved (stream\<lparr>isLive := Some True, st_startedAt := now\<rparr>))\<rparr>,
           False))"

text \<open>
  \<open>endStream(streamKey)\<close>: the new state, the events emitted and the result, which is
  the error thrown or \<open>(streamId, duration, session)\<close>. \<open>io\<close> says whether the server was
  given a socket server.
\<close>

definition endStream ::
  "bool \<Rightarrow> int \<Rightarrow> rtmp_state \<Rightarrow> string
    \<Rightarrow> rtmp_state \<times> rtmp_event list \<times> (error + string \<times> int \<times> session option)" where
  "endStream io now s streamKey =
     (case streams s streamKey of
        None \<Rightarrow> (s, [], Inl StreamNotFound)
      | Some d \<Rightarrow>
          let stream = loaded d in
          if \<not> truthy (isLive stream) then (s, [], Inl StreamNotLive)
          else
            let duration = (now - st_startedAt stream) div 1000;
                session = map_get (streamSessions s) streamKey
            in (\<lparr>streamSessions = map_delete (streamSessions s) streamKey,
                 streams = (streams s)(streamKey \<mapsto>
                   saved (stream\<lparr>isLive := Some False, st_endedAt := Some now\<rparr>))\<rparr>,
                (if io then [StreamEnded (st_id stream) now duration] else []),
                Inr (st_id stream, duration, session)))"

text \<open>
  The first \<open>donePublish\<close> handler: it ends the stream when a session is stored for the
  key, logs an error of \<open>endStream\<close> without passing it on, and always removes the session.
\<close>

definition donePublish ::
  "bool \<Rightarrow> int \<Rightarrow> rtmp_state \<Rightarrow> string \<Rightarrow> rtmp_state \<times> rtmp_event list" where
  "donePublish io now s streamPath =
     (let streamKey = extractStreamKey streamPath in
      case map_get (streamSessions s) streamKey of
        None \<Rightarrow> (s, [])
      | Some session \<Rightarrow>
          (case endStream io now s streamKey of
             (s', evs, res) \<Rightarrow>
               (s'\<lparr>streamSessions := map_delete (streamSessions s') streamKey\<rparr>, evs)))"

text \<open>
  \<open>authenticateViewer(streamKey, token)\<close>, the check on the RTMP play path. It reads the
  stream with \<open>populate('user', 'username profilePicture')\<close>, so \<open>stream.user\<close> is the owner
  with its id and these two paths only (\<open>null\<close> when the owner does not exist) and
  \<open>stream.user.followers\<close> is \<open>undefined\<close>: the \<open>includes\<close> call on it throws.
\<close>

record populated_user =
  pu_id :: string
  pu_username :: string
  pu_profilePicture :: string
  pu_followers :: "string list option"

definition populate_user :: "(string \<Rightarrow> user option) \<Rightarrow> string \<Rightarrow> populated_user option" where
  "populate_user users uid =
     (case users uid of
        None \<Rightarrow> None
      | Some u \<Rightarrow> Some \<lparr>pu_id = u_id u, pu_username = u_username u,
                        pu_profilePicture = u_profilePicture u, pu_followers = None\<rparr>)"

definition authenticateViewer ::
  "(string \<Rightarrow> string option) \<Rightarrow> (string \<Rightarrow> user option) \<Rightarrow> (string \<Rightarrow> stream_doc option)
    \<Rightarrow> string \<Rightarrow> string option \<Rightarrow> error + user option \<times> stream_doc" where
  "authenticateViewer verify users db streamKey token =
     (case db streamKey of
        None \<Rightarrow> Inl StreamNotFound
      | Some stream \<Rightarrow>
          if \<not> st_isPrivate stream then Inr (None, stream)
          else (case token of
            None \<Rightarrow> Inl AuthenticationRequired
          | Some t \<Rightarrow>
              if t = [] then Inl AuthenticationRequired
              else (case verify t of
                None \<Rightarrow> Inl InvalidToken
              | Some uid \<Rightarrow>
                  (case users uid of
                     None \<Rightarrow> Inl UserNotFound
                   | Some user \<Rightarrow>
                       (case populate_user users (st_user stream) of
                          None \<Rightarrow> Inl TypeError
                        | Some owner \<Rightarrow>
                            (case pu_followers owner of
                               None \<Rightarrow> Inl TypeError
                             | Some followers \<Rightarrow>
                                 let isOwner = (pu_id owner = u_id user);
                                     isAdmin = (u_role user = RoleAdmin);
                                     isFollower = (u_id user \<in> set followers)
                                 in if \<not> isOwner \<and> \<not> isAdmin \<and> \<not> isFollower
                                    then Inl NotAuthorizedToView
                                    else Inr (Some user, stream)))))))"

section \<open>WebSocket server (src/services/webSocketServer.js)\<close>

subsection \<open>The socket.io rooms\<close>

text \<open>
  The handlers call into socket.io, which keeps its own table of which socket is in
  which room. The table is a list of pairs (socket id, room): \<open>socket.join\<close> and
  \<open>socket.leave\<close> add and remove a pair, \<open>socket.rooms\<close> lists the rooms of a socket, and a
  socket that disconnects has left all its rooms when the \<open>disconnect\<close> event is handled.
  The room that socket.io gives every socket under its own id is left out: no stream
  room has such a name. An emit names its target as the source does: \<open>io.to(room)\<close> is
  every socket of the room, \<open>socket.to(room)\<close> every socket of the room but the sender,
  \<open>socket.emit\<close> the socket itself.
\<close>

type_synonym adapter = "(string \<times> string) list"

definition socket_join :: "adapter \<Rightarrow> string \<Rightarrow> string \<Rightarrow> adapter" where
  "socket_join a sid room = (if (sid, room) \<in> set a then a else a @ [(sid, room)])"

definition socket_leave :: "adapter \<Rightarrow> string \<Rightarrow> string \<Rightarrow> adapter" where
  "socket_leave a sid room = removeAll (sid, room) a"

definition socket_disconnect :: "adapter \<Rightarrow> string \<Rightarrow> adapter" where
  "socket_disconnect a sid = filter (\<lambda>p. fst p \<noteq> sid) a"

definition socket_rooms :: "adapter \<Rightarrow> string \<Rightarrow> string list" where
  "socket_rooms a sid = map snd (filter (\<lambda>p. fst p = sid) a)"

definition room_sockets :: "adapter \<Rightarrow> string \<Rightarrow> string list" where
  "room_sockets a room = map fst (filter (\<lambda>p. snd p = room) a)"

datatype target = ToRoom string | ToRoomExcept string string | ToSocket string

fun recipients :: "adapter \<Rightarrow> target \<Rightarrow> string list" where
  "recipients a (ToRoom room) = room_sockets a room"
| "recipients a (ToRoomExcept room sid) = filter (\<lambda>x. x \<noteq> sid) (room_sockets a room)"
| "recipients a (ToSocket sid) = [sid]"

subsection \<open>State and events\<close>

text \<open>
  A chat text is a JavaScript string, a sequence of UTF-16 code units; \<open>trim\<close> removes
  the white space and line terminators of ECMAScript from both ends.
\<close>

definition js_whitespace :: "nat \<Rightarrow> bool" where
  "js_whitespace c =
     (c \<in> {9, 10, 11, 12, 13, 32, 160, 5760, 8232, 8233, 8239, 8287, 12288, 65279}
      \<or> (8192 \<le> c \<and> c \<le> 8202))"

definition trim :: "nat list \<Rightarrow> nat list" where
  "trim s = rev (dropWhile js_whitespace (rev (dropWhile js_whitespace s)))"

record chat_message =
  cm_userId :: string
  cm_username :: string
  cm_userRole :: role
  cm_avatar :: string
  cm_message :: "nat list"
  cm_timestamp :: int

datatype ws_event =
  UserJoined string string int
  | StreamInfo streamData
  | ViewerCount nat
  | UserLeft string string int
  | ChatMessage chat_message
  | Reaction string string string int

type_synonym ws_emit = "target \<times> ws_event"

record socket =
  sock_id :: string
  sock_user :: "user option"

text \<open>
  The state of the server: its two tables, the rooms of socket.io, and the \<open>user\<close>
  property of every socket that has one (\<open>socket.user = user\<close> in \<open>authenticateSocket\<close>).
\<close>

record ws_state =
  connectedUsers :: "(string, string js_set) js_map"
  roomSubscribers :: "(string, string js_set) js_map"
  rooms :: adapter
  sockets :: "(string, user) js_map"

definition ws_init :: ws_state where
  "ws_init = \<lparr>connectedUsers = [], roomSubscribers = [], rooms = [], sockets = []\<rparr>"

definition socket_of :: "ws_state \<Rightarrow> string \<Rightarrow> socket" where
  "socket_of s sid = \<lparr>sock_id = sid, sock_user = map_get (sockets s) sid\<rparr>"

definition roomName :: "string \<Rightarrow> string" where
  "roomName streamId = ''stream:'' @ streamId"

subsection \<open>Handlers\<close>

text \<open>
  \<open>authenticateSocket(socket, token)\<close>: every failure inside the \<open>try\<close> block is
  rethrown as 'Authentication failed'.
\<close>

definition authenticateSocket ::
  "(string \<Rightarrow> string option) \<Rightarrow> (string \<Rightarrow> user option) \<Rightarrow> ws_state \<Rightarrow> string
    \<Rightarrow> string option \<Rightarrow> ws_state \<times> (error + user)" where
  "authenticateSocket verify users s sid token =
     (case token of
        None \<Rightarrow> (s, Inl AuthenticationFailed)
      | Some t \<Rightarrow>
          if t = [] then (s, Inl AuthenticationFailed)
          else (case verify t of
            None \<Rightarrow> (s, Inl AuthenticationFailed)
          | Some uid \<Rightarrow>
              (case users uid of
                 None \<Rightarrow> (s, Inl AuthenticationFailed)
               | Some user \<Rightarrow>
                   let s1 = s\<lparr>sockets := map_set (sockets s) sid user\<rparr>;
                       cu = (if \<not> map_has (connectedUsers s1) (u_id user)
                             then map_set (connectedUsers s1) (u_id user) []
                             else connectedUsers s1)
                   in (case map_get cu (u_id user) of
                         None \<Rightarrow> (s1\<lparr>connectedUsers := cu\<rparr>, Inl AuthenticationFailed)
                       | Some userSockets \<Rightarrow>
                           (s1\<lparr>connectedUsers := map_set cu (u_id user) (set_add userSockets sid)\<rparr>,
                            Inr user)))))"

text \<open>
  \<open>handleJoinStream(socket, streamId)\<close>. \<open>findById\<close> is \<open>Stream.findById\<close> and
  \<open>activeStreams\<close> the table that \<open>rtmpServer.getStreamInfo\<close> reads.
\<close>

definition handleJoinStream ::
  "(string \<Rightarrow> stream_doc option) \<Rightarrow> (string, streamData) js_map \<Rightarrow> int \<Rightarrow> ws_state \<Rightarrow> socket
    \<Rightarrow> string \<Rightarrow> ws_state \<times> ws_emit list \<times> (error + unit)" where
  "handleJoinStream findById activeStreams now s socket streamId =
     (case sock_user socket of
        None \<Rightarrow> (s, [], Inl NotAuthenticated)
      | Some user \<Rightarrow>
          (case findById streamId of
             None \<Rightarrow> (s, [], Inl StreamNotFound)
           | Some stream \<Rightarrow>
               if st_isPrivate stream \<and> st_user stream \<noteq> u_id user \<and> u_role user \<noteq> RoleAdmin
               then (s, [], Inl AccessDenied)
               else
                 let room = roomName streamId;
                     joined = socket_join (rooms s) (sock_id socket) room;
                     rs = (if \<not> map_has (roomSubscribers s) room
                           then map_set (roomSubscribers s) room []
                           else roomSubscribers s)
                 in (case map_get rs room of
                       None \<Rightarrow> (s\<lparr>roomSubscribers := rs, rooms := joined\<rparr>, [], Inl TypeError)
                     | Some subscribers \<Rightarrow>
                         let subscribers' = set_add subscribers (sock_id socket);
                             rs' = map_set rs room subscribers';
                             streamInfo = map_get activeStreams (st_streamKey stream);
                             viewerCount = set_size subscribers'
                         in (s\<lparr>roomSubscribers := rs', rooms := joined\<rparr>,
                             [(ToRoomExcept room (sock_id socket),
                               UserJoined (u_id user) (u_username user) now)]
                             @ (case streamInfo of
                                  None \<Rightarrow> []
                                | Some info \<Rightarrow> [(ToSocket (sock_id socket), StreamInfo info)])
                             @ [(ToRoom room, ViewerCount viewerCount)],
                             Inr ()))))"

text \<open>The \<open>leave-stream\<close> handler.\<close>

definition leaveStream :: "ws_state \<Rightarrow> socket \<Rightarrow> string \<Rightarrow> ws_state \<times> ws_emit list" where
  "leaveStream s socket streamId =
     (let room = roomName streamId;
          left = socket_leave (rooms s) (sock_id socket) room
      in case map_get (roomSubscribers s) room of
           None \<Rightarrow> (s\<lparr>rooms := left\<rparr>, [])
         | Some subscribers \<Rightarrow>
             let subscribers' = set_delete subscribers (sock_id socket);
                 viewerCount = set_size subscribers';
                 rs = map_set (roomSubscribers s) room subscribers'
             in (s\<lparr>roomSubscribers :=
                      (if set_size subscribers' = 0 then map_delete rs room else rs),
                    rooms := left\<rparr>,
                 [(ToRoom room, ViewerCount viewerCount)]))"

text \<open>
  The loop of \<open>handleDisconnect\<close> over \<open>this.roomSubscribers\<close>: \<open>forEach\<close> visits the
  entries in order; an entry that holds the socket loses it, two events are emitted, and
  the entry is dropped when it became empty. The loop changes nothing but the entry it
  is visiting, so it is a pass over the list of entries.
\<close>

fun disconnect_rooms ::
  "user \<Rightarrow> string \<Rightarrow> int \<Rightarrow> (string, string js_set) js_map
    \<Rightarrow> (string, string js_set) js_map \<times> ws_emit list" where
  "disconnect_rooms user sid now [] = ([], [])"
| "disconnect_rooms user sid now ((room, subscribers) # entries) =
     (let (entries', evs') = disconnect_rooms user sid now entries in
      if set_has subscribers sid then
        let subscribers' = set_delete subscribers sid;
            viewerCount = set_size subscribers';
            evs = [(ToRoom room, ViewerCount viewerCount),
                   (ToRoom room, UserLeft (u_id user) (u_username user) now)]
        in ((if set_size subscribers' = 0 then entries' else (room, subscribers') # entries'),
            evs @ evs')
      else ((room, subscribers) # entries', evs'))"

definition handleDisconnect :: "int \<Rightarrow> ws_state \<Rightarrow> socket \<Rightarrow> ws_state \<times> ws_emit list" where
  "handleDisconnect now s socket =
     (case sock_user socket of
        None \<Rightarrow> (s, [])
      | Some user \<Rightarrow>
          let userId = u_id user;
              cu = (case map_get (connectedUsers s) userId of
                      None \<Rightarrow> connectedUsers s
                    | Some userSockets \<Rightarrow>
                        let userSockets' = set_delete userSockets (sock_id socket);
                            cu1 = map_set (connectedUsers s) userId userSockets'
                        in if set_size userSockets' = 0 then map_delete cu1 userId else cu1);
              (rs, evs) = disconnect_rooms user (sock_id socket) now (roomSubscribers s)
          in (s\<lparr>connectedUsers := cu, roomSubscribers := rs\<rparr>, evs))"

text \<open>\<open>handleChatMessage(socket, {streamId, message})\<close>; it changes no state.\<close>

definition handleChatMessage ::
  "int \<Rightarrow> ws_state \<Rightarrow> socket \<Rightarrow> string \<Rightarrow> nat list \<Rightarrow> ws_emit list \<times> (error + chat_message)" where
  "handleChatMessage now s socket streamId message =
     (case sock_user socket of
        None \<Rightarrow> ([], Inl NotAuthenticated)
      | Some user \<Rightarrow>
          if message = [] \<or> trim message = [] then ([], Inl MessageEmpty)
          else
            let room = roomName streamId;
                socketRooms = socket_rooms (rooms s) (sock_id socket)
            in if room \<notin> set socketRooms then ([], Inl NotInRoom)
               else
                 let chatMessage = \<lparr>cm_userId = u_id user, cm_username = u_username user,
                       cm_userRole = u_role user, cm_avatar = u_profilePicture user,
                       cm_message = trim message, cm_timestamp = now\<rparr>
                 in ([(ToRoom room, ChatMessage chatMessage)], Inr chatMessage))"

text \<open>\<open>handleReaction(socket, {streamId, reaction})\<close>; it changes no state.\<close>

definition handleReaction ::
  "int \<Rightarrow> ws_state \<Rightarrow> socket \<Rightarrow> string \<Rightarrow> string \<Rightarrow> ws_emit list \<times> (error + unit)" where
  "handleReaction now s socket streamId reaction =
     (case sock_user socket of
        None \<Rightarrow> ([], Inl NotAuthenticated)
      | Some user \<Rightarrow>
          let room = roomName streamId;
              socketRooms = socket_rooms (rooms s) (sock_id socket)
          in if room \<notin> set socketRooms then ([], Inl NotInRoom)
             else ([(ToRoomExcept room (sock_id socket),
                     Reaction (u_id user) (u_username user) reaction now)], Inr ()))"

subsection \<open>Runs of the server\<close>

text \<open>
  The events a socket can send, each with what the handler reads from outside at that
  moment (token verification, the user and stream collections, the table of active
  streams, the clock). A handler gets the socket object, which is the socket id and the
  \<open>user\<close> property stored for it. When a socket disconnects, socket.io has removed it from
  its rooms before \<open>handleDisconnect\<close> runs, and the socket object is gone afterwards.
  The \<open>authenticate\<close> handler disconnects a socket whose authentication fails.
\<close>

record ws_env =
  env_verify :: "string \<Rightarrow> string option"
  env_users :: "string \<Rightarrow> user option"
  env_findById :: "string \<Rightarrow> stream_doc option"
  env_activeStreams :: "(string, streamData) js_map"
  env_now :: int

datatype ws_op =
  Authenticate string "string option"
  | JoinStream string string
  | LeaveStream string string
  | Disconnect string
  | SendChat string string "nat list"
  | SendReaction string string string

definition disconnect_socket :: "int \<Rightarrow> ws_state \<Rightarrow> string \<Rightarrow> ws_state \<times> ws_emit list" where
  "disconnect_socket now s sid =
     (case handleDisconnect now (s\<lparr>rooms := socket_disconnect (rooms s) sid\<rparr>) (socket_of s sid) of
        (s', evs) \<Rightarrow> (s'\<lparr>sockets := map_delete (sockets s') sid\<rparr>, evs))"

fun ws_step :: "ws_env \<Rightarrow> ws_state \<Rightarrow> ws_op \<Rightarrow> ws_state \<times> ws_emit list" where
  "ws_step env s (Authenticate sid token) =
     (case authenticateSocket (env_verify env) (env_users env) s sid token of
        (s', Inr user) \<Rightarrow> (s', [])
      | (s', Inl e) \<Rightarrow> disconnect_socket (env_now env) s' sid)"
| "ws_step env s (JoinStream sid streamId) =
     (case handleJoinStream (env_findById env) (env_activeStreams env) (env_now env) s
             (socket_of s sid) streamId of
        (s', evs, res) \<Rightarrow> (s', evs))"
| "ws_step env s (LeaveStream sid streamId) = leaveStream s (socket_of s sid) streamId"
| "ws_step env s (Disconnect sid) = disconnect_socket (env_now env) s sid"
| "ws_step env s (SendChat sid streamId message) =
     (s, fst (handleChatMessage (env_now env) s (socket_of s sid) streamId message))"
| "ws_step env s (SendReaction sid streamId reaction) =
     (s, fst (handleReaction (env_now env) s (socket_of s sid) streamId reaction))"

fun ws_run :: "ws_state \<Rightarrow> (ws_env \<times> ws_op) list \<Rightarrow> ws_state" where
  "ws_run s [] = s"
| "ws_run s ((env, op) # ops) = ws_run (fst (ws_step env s op)) ops"

text \<open>
  The members of a room as \<open>roomSubscribers\<close> has them (no entry: no member), and the
  number that \<open>getViewerCount\<close> returns.
\<close>

definition members_of :: "(string, string js_set) js_map \<Rightarrow> string \<Rightarrow> string set" where
  "members_of rs room = (case map_get rs room of None \<Rightarrow> {} | Some subscribers \<Rightarrow> set subscribers)"

definition room_members :: "ws_state \<Rightarrow> string \<Rightarrow> string set" where
  "room_members s room = members_of (roomSubscribers s) room"

definition getViewerCount :: "ws_state \<Rightarrow> string \<Rightarrow> nat" where
  "getViewerCount s streamId =
     (case map_get (roomSubscribers s) (roomName streamId) of
        None \<Rightarrow> 0
      | Some subscribers \<Rightarrow> set_size subscribers)"

definition viewer_counts :: "ws_emit list \<Rightarrow> (target \<times> nat) list" where
  "viewer_counts evs =
     concat (map (\<lambda>e. case e of (tgt, ViewerCount n) \<Rightarrow> [(tgt, n)] | _ \<Rightarrow> []) evs)"

text \<open>
  The two views of room membership agree, and only sockets with a \<open>user\<close> are members.
\<close>

definition ws_sync :: "ws_state \<Rightarrow> bool" where
  "ws_sync s =
     ((\<forall>sid room. (sid, room) \<in> set (rooms s) \<longleftrightarrow> sid \<in> members_of (roomSubscribers s) room) \<and>
      (\<forall>sid room. sid \<in> members_of (roomSubscribers s) room \<longrightarrow> map_has (sockets s) sid))"

definition rooms_wf :: "(string, string js_set) js_map \<Rightarrow> bool" where
  "rooms_wf rs =
     (distinct (map fst rs) \<and> list_all (\<lambda>(room, subscribers). distinct subscribers \<and> subscribers \<noteq> []) rs)"

section \<open>Example data\<close>

text \<open>
  Three users, a streamer, a plain user who follows the streamer, and an admin, with a
  token each; the RTMP server before any publish, after the streamer's \<open>prePublish\<close> on
  the streamer's own key, and with that stream ended as \<open>StreamController.endStream\<close> ends
  one (\<open>endedAt\<close> stored, no session); and a private stream of the streamer.
\<close>

definition alice :: user where
  "alice = \<lparr>u_id = ''u1'', u_username = ''alice'', u_role = RoleStreamer,
     u_profilePicture = ''default.jpg'', u_streamKey = ''K1'', u_followers = [''u2'']\<rparr>"

definition bob :: user where
  "bob = \<lparr>u_id = ''u2'', u_username = ''bob'', u_role = RoleUser,
     u_profilePicture = ''default.jpg'', u_streamKey = ''K2'', u_followers = []\<rparr>"

definition carol :: user where
  "carol = \<lparr>u_id = ''u3'', u_username = ''carol'', u_role = RoleAdmin,
     u_profilePicture = ''default.jpg'', u_streamKey = ''K3'', u_followers = []\<rparr>"

definition ex_users :: "string \<Rightarrow> user option" where
  "ex_users = [''u1'' \<mapsto> alice, ''u2'' \<mapsto> bob, ''u3'' \<mapsto> carol]"

definition ex_verify :: "string \<Rightarrow> string option" where
  "ex_verify = [''t1'' \<mapsto> ''u1'', ''t2'' \<mapsto> ''u2'', ''t3'' \<mapsto> ''u3'']"

definition rtmp_init :: rtmp_state where
  "rtmp_init = \<lparr>streamSessions = [], streams = Map.empty\<rparr>"

definition ex_live :: rtmp_state where
  "ex_live = fst (prePublish ex_verify ex_users ''id1'' 1000 rtmp_init ''c1'' ''/live/K1'' (Some ''t1''))"

definition ex_ended :: rtmp_state where
  "ex_ended = \<lparr>streamSessions = [],
     streams = [''K1'' \<mapsto> \<lparr>st_id = ''id1'', st_user = ''u1'', st_streamKey = ''K1'',
       st_isPrivate = False, st_startedAt = 1000, st_endedAt = Some 5000\<rparr>]\<rparr>"

definition ex_private :: stream_doc where
  "ex_private = \<lparr>st_id = ''id1'', st_user = ''u1'', st_streamKey = ''K1'',
      st_isPrivate = True, st_startedAt = 1000, st_endedAt = None\<rparr>"

definition ex_text :: "nat list" where
  "ex_text = [32, 104, 105, 32]"

definition ex_room :: ws_state where
  "ex_room = \<lparr>connectedUsers = [(''u1'', [''s1'']), (''u2'', [''s2''])],
     roomSubscribers = [(''stream:id1'', [''s1'', ''s2''])],
     rooms = [(''s1'', ''stream:id1''), (''s2'', ''stream:id1'')],
     sockets = [(''s1'', alice), (''s2'', bob)]\<rparr>"

definition ex_public :: stream_doc where
  "ex_public = \<lparr>st_id = ''id1'', st_user = ''u1'', st_streamKey = ''K1'',
      st_isPrivate = False, st_startedAt = 1000, st_endedAt = None\<rparr>"

definition ex_env :: ws_env where
  "ex_env = \<lparr>env_verify = ex_verify, env_users = ex_users, env_findById = [''id1'' \<mapsto> ex_public],
     env_activeStreams = [], env_now = 7000\<rparr>"

definition ex_ops :: "(ws_env \<times> ws_op) list" where
  "ex_ops = [(ex_env, Authenticate ''s1'' (Some ''t1'')), (ex_env, Authenticate ''s2'' (Some ''t2'')),
     (ex_env, JoinStream ''s1'' ''id1''), (ex_env, JoinStream ''s2'' ''id1'')]"

definition ex_alone_ops :: "(ws_env \<times> ws_op) list" where
  "ex_alone_ops = [(ex_env, Authenticate ''s1'' (Some ''t1'')), (ex_env, JoinStream ''s1'' ''id1'')]"

definition ex_alone :: ws_state where
  "ex_alone = \<lparr>connectedUsers = [(''u1'', [''s1''])], roomSubscribers = [(''stream:id1'', [''s1''])],
     rooms = [(''s1'', ''stream:id1'')], sockets = [(''s1'', alice)]\<rparr>"

definition ex_left_ops :: "(ws_env \<times> ws_op) list" where
  "ex_left_ops = ex_alone_ops @ [(ex_env, LeaveStream ''s1'' ''id1'')]"

definition ex_alone_left :: ws_state where
  "ex_alone_left = \<lparr>connectedUsers = [(''u1'', [''s1''])], roomSubscribers = [], rooms = [],
     sockets = [(''s1'', alice)]\<rparr>"

section \<open>Properties of the containers\<close>

lemma map_get_set: "map_get (map_set m k v) k' = (if k' = k then Some v else map_get m k')"
  by (simp add: map_get_def map_set_def update_conv')

lemma map_get_delete: "map_get (map_delete m k) k' = (if k' = k then None else map_get m k')"
  by (simp add: map_get_def map_delete_def delete_conv')

lemma set_map_set_subset: "set (map_set m k v) \<subseteq> insert (k, v) (set m)"
  unfolding map_set_def by (induction m) auto

lemma socket_rooms_iff: "room \<in> set (socket_rooms a sid) \<longleftrightarrow> (sid, room) \<in> set a"
  by (force simp: socket_rooms_def)

lemma room_sockets_iff: "sid \<in> set (room_sockets a room) \<longleftrightarrow> (sid, room) \<in> set a"
  by (force simp: room_sockets_def)

section \<open>Recording service\<close>

text \<open>
  C9. Starting a recording for a stream key that already has a recording in progress
  returns \<open>false\<close> and leaves the table of recordings, and so the existing entry for
  that key, exactly as it was.
\<close>

theorem startRecording_already_running:
  "map_get recordings streamKey = Some r \<Longrightarrow>
     startRecording recordingId timestamp now recordings streamKey userId = (recordings, False) \<and>
     map_get (fst (startRecording recordingId timestamp now recordings streamKey userId)) streamKey
       = Some r"
  by (simp add: startRecording_def map_has_def map_get_def)

theorem startRecording_already_running_witness:
  "let recs = fst (startRecording ''id1'' ''t1'' 5 [] ''K1'' ''u1'') in
     map_get recs ''K1'' \<noteq> None \<and>
     startRecording ''id2'' ''t2'' 9 recs ''K1'' ''u2'' = (recs, False)"
proof -
  define recs where "recs = fst (startRecording ''id1'' ''t1'' 5 [] ''K1'' ''u1'')"
  have g: "map_get recs ''K1'' = Some \<lparr>rec_id = ''id1'', rec_streamKey = ''K1'', rec_userId = ''u1'',
      rec_filename = ''u1_t1_id1.mp4'', rec_path = ''../recordings/videos/u1_t1_id1.mp4'',
      rec_startTime = 5\<rparr>"
    by (simp add: recs_def startRecording_def map_has_def map_get_def map_set_def Let_def)
  from startRecording_already_running [OF g, of "''id2''" "''t2''" 9 "''u2''"] g
  show ?thesis by (simp add: recs_def [symmetric])
qed

section \<open>The RTMP viewer counter\<close>

lemma updateViewerCount_nonneg:
  "viewers_nonneg m \<Longrightarrow> viewers_nonneg (fst (updateViewerCount m k d))"
proof -
  assume a: "viewers_nonneg m"
  show ?thesis
  proof (cases "map_get m k")
    case None
    then show ?thesis using a by (simp add: updateViewerCount_def)
  next
    case (Some st)
    let ?v = "max 0 (sd_viewers st + d)"
    have "set (map_set m k (st\<lparr>sd_viewers := ?v\<rparr>)) \<subseteq> insert (k, st\<lparr>sd_viewers := ?v\<rparr>) (set m)"
      by (rule set_map_set_subset)
    with a have "viewers_nonneg (map_set m k (st\<lparr>sd_viewers := ?v\<rparr>))"
      by (auto simp: viewers_nonneg_def list_all_iff)
    with Some show ?thesis by (simp add: updateViewerCount_def Let_def)
  qed
qed

lemma updateViewerCounts_nonneg:
  "viewers_nonneg m \<Longrightarrow> viewers_nonneg (updateViewerCounts m calls)"
  by (induction m calls rule: updateViewerCounts.induct) (auto intro: updateViewerCount_nonneg)

lemma viewers_nonneg_lookup:
  "viewers_nonneg m \<Longrightarrow> viewers_of m k = Some v \<Longrightarrow> 0 \<le> v"
  by (auto simp: viewers_nonneg_def viewers_of_def map_get_def list_all_iff dest!: map_of_SomeD)

text \<open>
  C10. The viewer counter of the RTMP server never becomes negative: after any sequence
  of \<open>updateViewerCount\<close> calls on a table whose counters are not negative (a stream
  enters the table with \<open>viewers: 0\<close>), every stored counter is at least 0; after a single
  call the counter of the stream concerned is at least 0 whatever it was before, and it
  equals the returned value; and a call with a negative delta on a counter that is 0
  leaves it at 0.
\<close>

theorem updateViewerCount_never_negative:
  "(viewers_nonneg m \<longrightarrow>
      viewers_nonneg (updateViewerCounts m calls) \<and>
      (\<forall>k v. viewers_of (updateViewerCounts m calls) k = Some v \<longrightarrow> 0 \<le> v)) \<and>
   (map_get m k = Some st \<longrightarrow>
      (\<exists>v. viewers_of (fst (updateViewerCount m k d)) k = Some v \<and> 0 \<le> v \<and>
           snd (snd (updateViewerCount m k d)) = v)) \<and>
   (map_get m k = Some st \<and> sd_viewers st = 0 \<and> d \<le> 0 \<longrightarrow>
      viewers_of (fst (updateViewerCount m k d)) k = Some 0)"
proof (intro conjI)
  show "viewers_nonneg m \<longrightarrow>
     viewers_nonneg (updateViewerCounts m calls) \<and>
     (\<forall>k v. viewers_of (updateViewerCounts m calls) k = Some v \<longrightarrow> 0 \<le> v)"
    using updateViewerCounts_nonneg viewers_nonneg_lookup by blast
  show "map_get m k = Some st \<longrightarrow>
     (\<exists>v. viewers_of (fst (updateViewerCount m k d)) k = Some v \<and> 0 \<le> v \<and>
          snd (snd (updateViewerCount m k d)) = v)"
    by (simp add: updateViewerCount_def Let_def viewers_of_def map_get_set)
  show "map_get m k = Some st \<and> sd_viewers st = 0 \<and> d \<le> 0 \<longrightarrow>
     viewers_of (fst (updateViewerCount m k d)) k = Some 0"
    by (simp add: updateViewerCount_def Let_def viewers_of_def map_get_set)
qed

theorem updateViewerCount_never_negative_witness:
  "viewers_nonneg [(''K1'', fresh_stream ''s1'' ''K1'' ''u1'' 0)] \<and>
   map_get [(''K1'', fresh_stream ''s1'' ''K1'' ''u1'' 0)] ''K1'' = Some (fresh_stream ''s1'' ''K1'' ''u1'' 0) \<and>
   sd_viewers (fresh_stream ''s1'' ''K1'' ''u1'' 0) = 0 \<and>
   viewers_nonneg (updateViewerCounts [(''K1'', fresh_stream ''s1'' ''K1'' ''u1'' 0)]
     [(''K1'', 1), (''K1'', - 1), (''K1'', - 1)]) \<and>
   viewers_of (fst (updateViewerCount [(''K1'', fresh_stream ''s1'' ''K1'' ''u1'' 0)] ''K1'' (- 1))) ''K1''
     = Some 0"
proof -
  let ?st = "fresh_stream ''s1'' ''K1'' ''u1'' 0"
  let ?m = "[(''K1'', ?st)]"
  have a: "viewers_nonneg ?m" by (simp add: viewers_nonneg_def fresh_stream_def)
  have b: "map_get ?m ''K1'' = Some ?st" by (simp add: map_get_def)
  have c: "sd_viewers ?st = 0" by (simp add: fresh_stream_def)
  have d: "(- 1 :: int) \<le> 0" by simp
  note t = updateViewerCount_never_negative
    [of ?m "[(''K1'', 1), (''K1'', - 1), (''K1'', - 1)]" "''K1''" ?st "- 1"]
  from t a have e: "viewers_nonneg (updateViewerCounts ?m [(''K1'', 1), (''K1'', - 1), (''K1'', - 1)])"
    by blast
  from t b c d have f: "viewers_of (fst (updateViewerCount ?m ''K1'' (- 1))) ''K1'' = Some 0"
    by blast
  from a b c e f show ?thesis by blast
qed

section \<open>Publishing\<close>

lemmas ex_defs = alice_def bob_def carol_def ex_users_def ex_verify_def rtmp_init_def

lemma extract_K1: "extractStreamKey ''/live/K1'' = ''K1''"
  by (simp add: extractStreamKey_def)

lemma saved_loaded: "saved (loaded d) = d"
  by (simp add: saved_def loaded_def)

lemma saved_update:
  "saved (stream\<lparr>isLive := v, st_startedAt := t\<rparr>) = (saved stream)\<lparr>st_startedAt := t\<rparr>"
  by (simp add: saved_def)

lemma ex_live_eq: "ex_live = \<lparr>streamSessions = [(''K1'', PublishSession ''c1'' ''id1'' ''u1'' 1000)],
   streams = [''K1'' \<mapsto> \<lparr>st_id = ''id1'', st_user = ''u1'', st_streamKey = ''K1'',
      st_isPrivate = False, st_startedAt = 1000, st_endedAt = None\<rparr>]\<rparr>"
  by (simp add: ex_live_def prePublish_def authenticatePublisher_def extract_K1 ex_defs map_set_def
      saved_def Let_def)

lemma authenticatePublisher_failure_db:
  "authenticatePublisher verify users newId now db streamKey token = (db', Inl e) \<Longrightarrow> db' = db"
  by (auto simp: authenticatePublisher_def Let_def split: option.splits if_splits)

lemma prePublish_outcome:
  "(case authenticatePublisher verify users newId now (streams s) (extractStreamKey streamPath) token of
      (db, Inl e) \<Rightarrow>
        prePublish verify users newId now s connId streamPath token = (s, True)
    | (db, Inr (user, stream)) \<Rightarrow>
        snd (prePublish verify users newId now s connId streamPath token) = False \<and>
        map_get (streamSessions (fst (prePublish verify users newId now s connId streamPath token)))
          (extractStreamKey streamPath) = Some (PublishSession connId (st_id stream) (u_id user) now) \<and>
        streams (fst (prePublish verify users newId now s connId streamPath token))
          (extractStreamKey streamPath) = Some ((saved stream)\<lparr>st_startedAt := now\<rparr>))"
proof -
  let ?a = "authenticatePublisher verify users newId now (streams s) (extractStreamKey streamPath) token"
  obtain db r where a: "?a = (db, r)" by (cases ?a)
  show ?thesis
  proof (cases r)
    case (Inl e)
    with a have "db = streams s" by (auto dest: authenticatePublisher_failure_db)
    with a Inl show ?thesis by (simp add: prePublish_def)
  next
    case (Inr p)
    obtain user stream where p: "p = (user, stream)" by (cases p)
    with a Inr show ?thesis by (simp add: prePublish_def map_get_set saved_update Let_def)
  qed
qed

lemma authenticatePublish_sessions:
  "snd (authenticatePublish verify users now sessions connId streamPath token)
     = snd (authenticatePublish verify users now [] connId streamPath token)"
  by (simp add: authenticatePublish_def Let_def split: option.splits)

text \<open>
  C1 as stated fails: no path of the server looks for an existing publish session. A
  second \<open>prePublish\<close> for \<open>K1\<close> by the owner, while the session of the first is stored,
  is not rejected; it replaces the stored session and resets \<open>startedAt\<close>.
\<close>

theorem second_publish_counterexample:
  "map_get (streamSessions ex_live) ''K1'' = Some (PublishSession ''c1'' ''id1'' ''u1'' 1000) \<and>
   snd (prePublish ex_verify ex_users ''id2'' 2000 ex_live ''c2'' ''/live/K1'' (Some ''t1'')) = False \<and>
   map_get (streamSessions (fst (prePublish ex_verify ex_users ''id2'' 2000 ex_live ''c2'' ''/live/K1'' (Some ''t1'')))) ''K1''
     = Some (PublishSession ''c2'' ''id1'' ''u1'' 2000) \<and>
   map_option st_startedAt (streams ex_live ''K1'') = Some 1000 \<and>
   map_option st_startedAt
     (streams (fst (prePublish ex_verify ex_users ''id2'' 2000 ex_live ''c2'' ''/live/K1'' (Some ''t1''))) ''K1'')
     = Some 2000"
  by (simp add: ex_live_eq prePublish_def authenticatePublisher_def extract_K1 ex_defs map_set_def
      map_get_def saved_def loaded_def Let_def)

text \<open>
  C1, amended. A publish attempt for a stream key that already has a publish session
  is treated like a first one: it is rejected exactly when \<open>authenticatePublisher\<close>
  fails, and then the state is unchanged; when authentication succeeds the attempt is
  admitted, the stored session is replaced by one for the new connection and the
  stored \<open>startedAt\<close> of the stream is reset to the time of the attempt. The answer of
  \<open>authenticatePublish\<close> does not depend on the sessions stored either.
\<close>

theorem prePublish_existing_session:
  "map_get (streamSessions s) (extractStreamKey streamPath) = Some old \<Longrightarrow>
   (case authenticatePublisher verify users newId now (streams s) (extractStreamKey streamPath) token of
      (db, Inl e) \<Rightarrow>
        prePublish verify users newId now s connId streamPath token = (s, True)
    | (db, Inr (user, stream)) \<Rightarrow>
        snd (prePublish verify users newId now s connId streamPath token) = False \<and>
        map_get (streamSessions (fst (prePublish verify users newId now s connId streamPath token)))
          (extractStreamKey streamPath) = Some (PublishSession connId (st_id stream) (u_id user) now) \<and>
        streams (fst (prePublish verify users newId now s connId streamPath token))
          (extractStreamKey streamPath) = Some ((saved stream)\<lparr>st_startedAt := now\<rparr>)) \<and>
   snd (authenticatePublish verify users now (streamSessions s) connId streamPath token)
     = snd (authenticatePublish verify users now [] connId streamPath token)"
  by (rule conjI [OF prePublish_outcome authenticatePublish_sessions])

theorem prePublish_existing_session_witness:
  "map_get (streamSessions ex_live) (extractStreamKey ''/live/K1'') = Some (PublishSession ''c1'' ''id1'' ''u1'' 1000) \<and>
   prePublish ex_verify ex_users ''id2'' 2000 ex_live ''c2'' ''/live/K1'' (Some ''t2'') = (ex_live, True) \<and>
   snd (prePublish ex_verify ex_users ''id2'' 2000 ex_live ''c2'' ''/live/K1'' (Some ''t1'')) = False \<and>
   map_option st_startedAt
     (streams (fst (prePublish ex_verify ex_users ''id2'' 2000 ex_live ''c2'' ''/live/K1'' (Some ''t1'')))
        (extractStreamKey ''/live/K1'')) = Some 2000"
proof -
  have h: "map_get (streamSessions ex_live) (extractStreamKey ''/live/K1'') = Some (PublishSession ''c1'' ''id1'' ''u1'' 1000)"
    by (simp add: ex_live_eq extract_K1 map_get_def)
  have f: "authenticatePublisher ex_verify ex_users ''id2'' 2000 (streams ex_live) (extractStreamKey ''/live/K1'') (Some ''t2'')
     = (streams ex_live, Inl UnauthorizedChannel)"
    by (simp add: ex_live_eq authenticatePublisher_def extract_K1 ex_defs loaded_def)
  have g: "authenticatePublisher ex_verify ex_users ''id2'' 2000 (streams ex_live) (extractStreamKey ''/live/K1'') (Some ''t1'')
     = (streams ex_live, Inr (alice, loaded (the (streams ex_live ''K1''))))"
    by (simp add: ex_live_eq authenticatePublisher_def extract_K1 ex_defs loaded_def)
  from prePublish_existing_session [OF h, where verify = ex_verify and users = ex_users and newId = "''id2''"
      and now = 2000 and token = "Some ''t2''" and connId = "''c2''"] f
  have 1: "prePublish ex_verify ex_users ''id2'' 2000 ex_live ''c2'' ''/live/K1'' (Some ''t2'') = (ex_live, True)"
    by simp
  from prePublish_existing_session [OF h, where verify = ex_verify and users = ex_users and newId = "''id2''"
      and now = 2000 and token = "Some ''t1''" and connId = "''c2''"] g
  have 2: "snd (prePublish ex_verify ex_users ''id2'' 2000 ex_live ''c2'' ''/live/K1'' (Some ''t1'')) = False \<and>
     streams (fst (prePublish ex_verify ex_users ''id2'' 2000 ex_live ''c2'' ''/live/K1'' (Some ''t1'')))
        (extractStreamKey ''/live/K1'')
       = Some ((saved (loaded (the (streams ex_live ''K1''))))\<lparr>st_startedAt := 2000\<rparr>)"
    by simp
  then have 3: "map_option st_startedAt
     (streams (fst (prePublish ex_verify ex_users ''id2'' 2000 ex_live ''c2'' ''/live/K1'' (Some ''t1'')))
        (extractStreamKey ''/live/K1'')) = Some 2000"
    by simp
  from h 1 2 3 show ?thesis by blast
qed

section \<open>Ending a stream\<close>

lemma endStream_stored:
  "streams s streamKey = Some d \<Longrightarrow> endStream io now s streamKey = (s, [], Inl StreamNotLive)"
  by (simp add: endStream_def loaded_def truthy_def)

lemma donePublish_removes_session:
  "map_get (streamSessions (fst (donePublish io now s streamPath))) (extractStreamKey streamPath) = None"
  by (cases "endStream io now s (extractStreamKey streamPath)")
     (simp add: donePublish_def map_get_delete Let_def split: option.splits)

lemma donePublish_no_session:
  "map_get (streamSessions s) (extractStreamKey streamPath) = None \<Longrightarrow>
     donePublish io now s streamPath = (s, [])"
  by (simp add: donePublish_def)

text \<open>
  C3 as stated fails: for a stream that is already ended (its \<open>endedAt\<close> is stored), an
  end call does not return the stored \<open>endedAt\<close>, it throws 'Stream is not live'.
\<close>

theorem repeated_end_counterexample:
  "map_option st_endedAt (streams ex_ended ''K1'') = Some (Some 5000) \<and>
   endStream True 9000 ex_ended ''K1'' = (ex_ended, [], Inl StreamNotLive)"
  by (simp add: ex_ended_def endStream_def loaded_def truthy_def)

text \<open>
  C3, amended. For a stream that is already ended (its \<open>endedAt\<close> is stored), an end call
  fails with 'Stream is not live' instead of returning the stored \<open>endedAt\<close>; it changes
  nothing, so the stored \<open>endedAt\<close> stays, and it emits no \<open>stream-ended\<close> event. The
  \<open>donePublish\<close> handler always leaves the stream key without a session, and a repeated
  \<open>donePublish\<close> changes nothing and emits nothing.
\<close>

theorem endStream_repeated:
  "(streams s streamKey = Some d \<and> st_endedAt d = Some t \<longrightarrow>
      endStream io now s streamKey = (s, [], Inl StreamNotLive)) \<and>
   map_get (streamSessions (fst (donePublish io now s streamPath))) (extractStreamKey streamPath) = None \<and>
   donePublish io now' (fst (donePublish io now s streamPath)) streamPath
     = (fst (donePublish io now s streamPath), [])"
  by (simp add: endStream_stored donePublish_removes_session donePublish_no_session)

theorem endStream_repeated_witness:
  "streams ex_ended ''K1'' = Some \<lparr>st_id = ''id1'', st_user = ''u1'', st_streamKey = ''K1'',
       st_isPrivate = False, st_startedAt = 1000, st_endedAt = Some 5000\<rparr> \<and>
   endStream True 9000 ex_ended ''K1'' = (ex_ended, [], Inl StreamNotLive) \<and>
   map_get (streamSessions ex_live) (extractStreamKey ''/live/K1'') \<noteq> None \<and>
   map_get (streamSessions (fst (donePublish True 5000 ex_live ''/live/K1''))) (extractStreamKey ''/live/K1'')
     = None \<and>
   donePublish True 9000 (fst (donePublish True 5000 ex_live ''/live/K1'')) ''/live/K1''
     = (fst (donePublish True 5000 ex_live ''/live/K1''), [])"
proof -
  let ?d = "\<lparr>st_id = ''id1'', st_user = ''u1'', st_streamKey = ''K1'',
       st_isPrivate = False, st_startedAt = 1000, st_endedAt = Some 5000\<rparr>"
  have a: "streams ex_ended ''K1'' = Some ?d" by (simp add: ex_ended_def)
  have b: "st_endedAt ?d = Some 5000" by simp
  have c: "map_get (streamSessions ex_live) (extractStreamKey ''/live/K1'') \<noteq> None"
    by (simp add: ex_live_eq extract_K1 map_get_def)
  note t = endStream_repeated [where s = ex_ended and streamKey = "''K1''" and d = ?d and t = 5000
      and io = True and now = 9000]
  from t a b have 1: "endStream True 9000 ex_ended ''K1'' = (ex_ended, [], Inl StreamNotLive)"
    by blast
  note u = endStream_repeated [where s = ex_live and streamPath = "''/live/K1''" and io = True
      and now = 5000 and now' = 9000]
  from u have 2: "map_get (streamSessions (fst (donePublish True 5000 ex_live ''/live/K1'')))
      (extractStreamKey ''/live/K1'') = None"
    and 3: "donePublish True 9000 (fst (donePublish True 5000 ex_live ''/live/K1'')) ''/live/K1''
     = (fst (donePublish True 5000 ex_live ''/live/K1''), [])"
    by blast+
  from a 1 c 2 3 show ?thesis by blast
qed

section \<open>Publish authentication\<close>

text \<open>
  C5. \<open>authenticatePublish\<close> rejects a role that is neither streamer nor admin and
  rejects a stream key that is not the user's own, but it makes no exception for an
  admin: the admin \<open>carol\<close> is refused for \<open>K1\<close>, which \<open>authenticatePublisher\<close>, the check
  of the \<open>prePublish\<close> handler, admits. \<open>authenticatePublisher\<close> in turn makes no role
  check: it admits the plain user \<open>bob\<close>.
\<close>

theorem authenticatePublish_admin_rejected:
  "authenticatePublish ex_verify ex_users 2000 [] ''c9'' ''/live/K1'' (Some ''t3'') = ([], False) \<and>
   snd (authenticatePublisher ex_verify ex_users ''id9'' 2000 (streams ex_live) ''K1'' (Some ''t3''))
     = Inr (carol, \<lparr>st_id = ''id1'', st_user = ''u1'', st_streamKey = ''K1'',
         st_isPrivate = False, st_startedAt = 1000, st_endedAt = None, isLive = None\<rparr>) \<and>
   authenticatePublish ex_verify ex_users 2000 [] ''c9'' ''/live/K2'' (Some ''t2'') = ([], False) \<and>
   snd (authenticatePublisher ex_verify ex_users ''id9'' 2000 (streams ex_live) ''K2'' (Some ''t2''))
     = Inr (bob, \<lparr>st_id = ''id9'', st_user = ''u2'', st_streamKey = ''K2'',
         st_isPrivate = False, st_startedAt = 2000, st_endedAt = None, isLive = None\<rparr>)"
  by (simp add: authenticatePublish_def authenticateUser_def authenticatePublisher_def extractStreamKey_def
      ex_live_eq ex_defs loaded_def Let_def)

lemma authenticatePublish_role:
  "authenticateUser verify users token = Some user \<Longrightarrow>
   snd (authenticatePublish verify users now sessions connId streamPath token) \<longleftrightarrow>
     (u_role user = RoleStreamer \<or> u_role user = RoleAdmin) \<and> u_streamKey user = extractStreamKey streamPath"
  by (auto simp: authenticatePublish_def Let_def)

section \<open>Access to private streams\<close>

text \<open>
  C4. \<open>handleJoinStream\<close> lets only the owner and an admin into the room of a private
  stream: \<open>bob\<close>, who is in the owner's list of followers, is denied.
\<close>

theorem handleJoinStream_follower_denied:
  "u_id bob \<in> set (u_followers alice) \<and>
   st_isPrivate ex_private \<and> st_user ex_private = u_id alice \<and>
   handleJoinStream [''id1'' \<mapsto> ex_private] [] 3000 ws_init \<lparr>sock_id = ''s2'', sock_user = Some bob\<rparr> ''id1''
     = (ws_init, [], Inl AccessDenied)"
  by (simp add: handleJoinStream_def ex_private_def ex_defs Let_def)

lemma handleJoinStream_private_iff:
  "sock_user socket = Some user \<Longrightarrow> findById streamId = Some stream \<Longrightarrow> st_isPrivate stream \<Longrightarrow>
   snd (snd (handleJoinStream findById activeStreams now s socket streamId)) = Inr () \<longleftrightarrow>
     st_user stream = u_id user \<or> u_role user = RoleAdmin"
  by (auto simp: handleJoinStream_def Let_def map_has_def map_get_def map_set_def update_conv'
      split: option.splits)

text \<open>
  The check on the play path names the follower in its comment and in its test, but
  it cannot apply it: for a private stream and a token of an existing user it throws.
\<close>

lemma authenticateViewer_private:
  "db streamKey = Some stream \<Longrightarrow> st_isPrivate stream \<Longrightarrow> t \<noteq> [] \<Longrightarrow> verify t = Some uid \<Longrightarrow>
   users uid = Some user \<Longrightarrow>
     authenticateViewer verify users db streamKey (Some t) = Inl TypeError"
  by (simp add: authenticateViewer_def populate_user_def split: option.splits)

section \<open>Rooms and viewer counts\<close>


lemma set_add_distinct: "distinct xs \<Longrightarrow> distinct (set_add xs x)"
  by (simp add: set_add_def)

lemma set_add_nonempty: "set_add xs x \<noteq> []"
  by (auto simp: set_add_def)

lemma set_delete_distinct: "distinct xs \<Longrightarrow> distinct (set_delete xs x)"
  by (simp add: set_delete_def distinct_removeAll)

lemma rooms_wf_entry:
  "rooms_wf rs \<Longrightarrow> map_get rs room = Some subs \<Longrightarrow> distinct subs \<and> subs \<noteq> []"
  by (auto simp: rooms_wf_def map_get_def list_all_iff dest!: map_of_SomeD)

lemma rooms_wf_set:
  assumes "rooms_wf rs" and "distinct subs" and "subs \<noteq> []"
  shows "rooms_wf (map_set rs room subs)"
proof -
  have "set (map_set rs room subs) \<subseteq> insert (room, subs) (set rs)"
    by (rule set_map_set_subset)
  with assms show ?thesis
    by (auto simp: rooms_wf_def list_all_iff map_set_def distinct_update)
qed

lemma rooms_wf_delete: "rooms_wf rs \<Longrightarrow> rooms_wf (map_delete rs room)"
proof -
  assume a: "rooms_wf rs"
  then have "distinct (map fst (AList.delete room rs))"
    by (simp add: rooms_wf_def distinct_delete)
  moreover have "set (AList.delete room rs) \<subseteq> set rs"
    by (auto simp: AList.delete_eq)
  ultimately show ?thesis using a
    by (auto simp: rooms_wf_def list_all_iff map_delete_def)
qed

lemma map_set_twice: "map_set (map_set rs room a) room b = map_set rs room b"
  by (simp add: map_set_def)

lemma map_delete_set: "map_delete (map_set rs room a) room = map_delete rs room"
  by (simp add: map_delete_def map_set_def delete_update_same)

subsection \<open>Joining\<close>

lemma handleJoinStream_success:
  assumes "handleJoinStream findById activeStreams now s socket streamId = (s', evs, Inr u)"
  shows "\<exists>subs. subs = (case map_get (roomSubscribers s) (roomName streamId) of
                          None \<Rightarrow> [] | Some xs \<Rightarrow> xs) \<and>
           roomSubscribers s' = map_set (roomSubscribers s) (roomName streamId) (set_add subs (sock_id socket)) \<and>
           viewer_counts evs = [(ToRoom (roomName streamId), set_size (set_add subs (sock_id socket)))]"
  using assms
  by (auto simp: handleJoinStream_def Let_def map_has_def map_get_def map_set_def update_conv' viewer_counts_def
      split: option.splits if_splits)

lemma handleJoinStream_failure:
  assumes "handleJoinStream findById activeStreams now s socket streamId = (s', evs, Inl e)"
  shows "roomSubscribers s' = roomSubscribers s \<and> evs = []"
  using assms
  by (auto simp: handleJoinStream_def Let_def map_has_def map_get_def map_set_def update_conv'
      split: option.splits if_splits)


lemma card_set_size: "distinct xs \<Longrightarrow> card (set xs) = set_size xs"
  by (simp add: set_size_def distinct_card)

lemma room_members_set:
  "room_members (s\<lparr>roomSubscribers := map_set rs room subs, rooms := a\<rparr>) room = set subs"
  by (simp add: room_members_def members_of_def map_get_set)

lemma handleJoinStream_wf:
  assumes wf: "rooms_wf (roomSubscribers s)"
  shows "rooms_wf (roomSubscribers (fst (handleJoinStream findById activeStreams now s socket streamId)))"
proof -
  obtain s' evs r where h: "handleJoinStream findById activeStreams now s socket streamId = (s', evs, r)"
    by (cases "handleJoinStream findById activeStreams now s socket streamId")
  show ?thesis
  proof (cases r)
    case (Inl e)
    with h wf show ?thesis by (auto dest: handleJoinStream_failure)
  next
    case (Inr u)
    let ?subs = "case map_get (roomSubscribers s) (roomName streamId) of None \<Rightarrow> [] | Some xs \<Rightarrow> xs"
    from h Inr have e: "roomSubscribers s' =
        map_set (roomSubscribers s) (roomName streamId) (set_add ?subs (sock_id socket))"
      by (auto dest: handleJoinStream_success)
    have "distinct ?subs" using wf by (auto split: option.splits dest: rooms_wf_entry)
    then have "rooms_wf (map_set (roomSubscribers s) (roomName streamId) (set_add ?subs (sock_id socket)))"
      using wf by (intro rooms_wf_set set_add_distinct set_add_nonempty)
    with e h show ?thesis by simp
  qed
qed

lemma handleJoinStream_counts:
  assumes wf: "rooms_wf (roomSubscribers s)"
    and m: "(tgt, n) \<in> set (viewer_counts (fst (snd (handleJoinStream findById activeStreams now s socket streamId))))"
  shows "\<exists>room. tgt = ToRoom room \<and>
     n = card (room_members (fst (handleJoinStream findById activeStreams now s socket streamId)) room)"
proof -
  obtain s' evs r where h: "handleJoinStream findById activeStreams now s socket streamId = (s', evs, r)"
    by (cases "handleJoinStream findById activeStreams now s socket streamId")
  show ?thesis
  proof (cases r)
    case (Inl e)
    with h m show ?thesis by (auto dest: handleJoinStream_failure simp: viewer_counts_def)
  next
    case (Inr u)
    let ?subs = "case map_get (roomSubscribers s) (roomName streamId) of None \<Rightarrow> [] | Some xs \<Rightarrow> xs"
    let ?subs' = "set_add ?subs (sock_id socket)"
    from h Inr have e: "roomSubscribers s' = map_set (roomSubscribers s) (roomName streamId) ?subs'"
      and v: "viewer_counts evs = [(ToRoom (roomName streamId), set_size ?subs')]"
      by (auto dest: handleJoinStream_success)
    have "distinct ?subs" using wf by (auto split: option.splits dest: rooms_wf_entry)
    then have d: "distinct ?subs'" by (rule set_add_distinct)
    from e have "room_members s' (roomName streamId) = set ?subs'"
      by (simp add: room_members_def members_of_def map_get_set)
    with d have "card (room_members s' (roomName streamId)) = set_size ?subs'"
      by (simp add: card_set_size)
    with h v m show ?thesis by simp
  qed
qed

subsection \<open>Leaving\<close>

lemma leaveStream_wf:
  assumes wf: "rooms_wf (roomSubscribers s)"
  shows "rooms_wf (roomSubscribers (fst (leaveStream s socket streamId)))"
proof (cases "map_get (roomSubscribers s) (roomName streamId)")
  case None
  with wf show ?thesis by (simp add: leaveStream_def Let_def)
next
  case (Some subs)
  with wf have d: "distinct (set_delete subs (sock_id socket))"
    by (auto dest: rooms_wf_entry intro: set_delete_distinct)
  show ?thesis
  proof (cases "set_delete subs (sock_id socket) = []")
    case True
    with Some wf show ?thesis
      by (simp add: leaveStream_def Let_def set_size_def map_delete_set rooms_wf_delete)
  next
    case False
    with Some wf d show ?thesis
      by (simp add: leaveStream_def Let_def set_size_def rooms_wf_set)
  qed
qed

lemma leaveStream_counts:
  assumes wf: "rooms_wf (roomSubscribers s)"
    and m: "(tgt, n) \<in> set (viewer_counts (snd (leaveStream s socket streamId)))"
  shows "\<exists>room. tgt = ToRoom room \<and> n = card (room_members (fst (leaveStream s socket streamId)) room)"
proof (cases "map_get (roomSubscribers s) (roomName streamId)")
  case None
  with m show ?thesis by (simp add: leaveStream_def Let_def viewer_counts_def)
next
  case (Some subs)
  with wf have d: "distinct (set_delete subs (sock_id socket))"
    by (auto dest: rooms_wf_entry intro: set_delete_distinct)
  from Some m have t: "tgt = ToRoom (roomName streamId)" and n: "n = set_size (set_delete subs (sock_id socket))"
    by (simp_all add: leaveStream_def Let_def viewer_counts_def)
  show ?thesis
  proof (cases "set_delete subs (sock_id socket) = []")
    case True
    with Some have "room_members (fst (leaveStream s socket streamId)) (roomName streamId) = {}"
      by (simp add: leaveStream_def Let_def set_size_def map_delete_set room_members_def members_of_def map_get_delete)
    with t n True show ?thesis by (simp add: set_size_def)
  next
    case False
    with Some have "room_members (fst (leaveStream s socket streamId)) (roomName streamId)
        = set (set_delete subs (sock_id socket))"
      by (simp add: leaveStream_def Let_def set_size_def room_members_def members_of_def map_get_set)
    with t n d show ?thesis by (simp add: card_set_size)
  qed
qed


subsection \<open>Disconnecting\<close>

lemma rooms_wf_Cons:
  "rooms_wf ((room, subs) # rs) \<longleftrightarrow>
     room \<notin> fst ` set rs \<and> distinct subs \<and> subs \<noteq> [] \<and> rooms_wf rs"
  by (auto simp: rooms_wf_def)

lemma disconnect_rooms_Cons:
  "disconnect_rooms user sid now ((room, subs) # entries) =
     (if sid \<in> set subs
      then ((if removeAll sid subs = [] then fst (disconnect_rooms user sid now entries)
             else (room, removeAll sid subs) # fst (disconnect_rooms user sid now entries)),
            [(ToRoom room, ViewerCount (length (removeAll sid subs))),
             (ToRoom room, UserLeft (u_id user) (u_username user) now)]
            @ snd (disconnect_rooms user sid now entries))
      else ((room, subs) # fst (disconnect_rooms user sid now entries),
            snd (disconnect_rooms user sid now entries)))"
  by (simp add: Let_def set_has_def set_delete_def set_size_def split: prod.splits)

lemma disconnect_rooms_keys:
  "fst ` set (fst (disconnect_rooms user sid now rs)) \<subseteq> fst ` set rs"
proof (induction rs)
  case Nil
  show ?case by simp
next
  case (Cons e rs)
  obtain room subs where e: "e = (room, subs)" by (cases e)
  from Cons.IH show ?case unfolding e disconnect_rooms_Cons by auto
qed

lemma disconnect_rooms_wf:
  "rooms_wf rs \<Longrightarrow> rooms_wf (fst (disconnect_rooms user sid now rs))"
proof (induction rs)
  case Nil
  then show ?case by simp
next
  case (Cons e rs)
  obtain room subs where e: "e = (room, subs)" by (cases e)
  from Cons.prems have p: "room \<notin> fst ` set rs" "distinct subs" "subs \<noteq> []" "rooms_wf rs"
    by (simp_all add: e rooms_wf_Cons)
  from p(4) have ih: "rooms_wf (fst (disconnect_rooms user sid now rs))" by (rule Cons.IH)
  from p(1) disconnect_rooms_keys [of user sid now rs]
  have k: "room \<notin> fst ` set (fst (disconnect_rooms user sid now rs))" by blast
  from p(2) have d: "distinct (removeAll sid subs)" by (simp add: distinct_removeAll)
  from ih k d p show ?case
    unfolding e disconnect_rooms_Cons by (simp add: rooms_wf_Cons)
qed

lemma disconnect_rooms_targets:
  "(tgt, n) \<in> set (viewer_counts (snd (disconnect_rooms user sid now rs))) \<Longrightarrow>
     \<exists>room \<in> fst ` set rs. tgt = ToRoom room"
proof (induction rs)
  case Nil
  then show ?case by (simp add: viewer_counts_def)
next
  case (Cons e rs)
  obtain room subs where e: "e = (room, subs)" by (cases e)
  from Cons.prems have
    "(sid \<in> set subs \<and> tgt = ToRoom room) \<or>
     (tgt, n) \<in> set (viewer_counts (snd (disconnect_rooms user sid now rs)))"
    unfolding e disconnect_rooms_Cons by (auto simp: viewer_counts_def split: if_splits)
  with Cons.IH show ?case unfolding e by auto
qed

lemma members_of_Cons:
  "members_of ((room, subs) # rs) r = (if r = room then set subs else members_of rs r)"
  by (simp add: members_of_def map_get_def)

lemma members_of_absent: "room \<notin> fst ` set rs \<Longrightarrow> members_of rs room = {}"
  by (simp add: members_of_def map_get_def map_of_eq_None_iff [THEN iffD2])

lemma disconnect_rooms_counts:
  "rooms_wf rs \<Longrightarrow> (tgt, n) \<in> set (viewer_counts (snd (disconnect_rooms user sid now rs))) \<Longrightarrow>
     \<exists>room. tgt = ToRoom room \<and> n = card (members_of (fst (disconnect_rooms user sid now rs)) room)"
proof (induction rs)
  case Nil
  then show ?case by (simp add: viewer_counts_def)
next
  case (Cons e rs)
  obtain room subs where e: "e = (room, subs)" by (cases e)
  let ?rest = "disconnect_rooms user sid now rs"
  from Cons.prems(1) have p: "room \<notin> fst ` set rs" "distinct subs" "subs \<noteq> []" "rooms_wf rs"
    by (simp_all add: e rooms_wf_Cons)
  from p(1) disconnect_rooms_keys [of user sid now rs]
  have k: "room \<notin> fst ` set (fst ?rest)" by blast
  from Cons.prems(2) have c:
    "(sid \<in> set subs \<and> tgt = ToRoom room \<and> n = length (removeAll sid subs)) \<or>
     (tgt, n) \<in> set (viewer_counts (snd ?rest))"
    unfolding e disconnect_rooms_Cons by (auto simp: viewer_counts_def split: if_splits)
  from c show ?case
  proof
    assume a: "sid \<in> set subs \<and> tgt = ToRoom room \<and> n = length (removeAll sid subs)"
    have "members_of (fst (disconnect_rooms user sid now ((room, subs) # rs))) room
        = set (removeAll sid subs)"
      using a k unfolding disconnect_rooms_Cons
      by (cases "removeAll sid subs = []") (auto simp: members_of_Cons members_of_absent)
    moreover from p(2) have "distinct (removeAll sid subs)" by (simp add: distinct_removeAll)
    then have "card (set (removeAll sid subs)) = length (removeAll sid subs)"
      by (rule distinct_card)
    ultimately show ?thesis using a unfolding e by simp
  next
    assume a: "(tgt, n) \<in> set (viewer_counts (snd ?rest))"
    from Cons.IH [OF p(4) a] obtain r where r: "tgt = ToRoom r"
      "n = card (members_of (fst ?rest) r)" by blast
    from disconnect_rooms_targets [OF a] r(1) have "r \<in> fst ` set rs" by auto
    with p(1) have ne: "r \<noteq> room" by auto
    then have "members_of (fst (disconnect_rooms user sid now ((room, subs) # rs))) r
        = members_of (fst ?rest) r"
      unfolding disconnect_rooms_Cons by (simp add: members_of_Cons)
    with r show ?thesis unfolding e by simp
  qed
qed

lemma room_members_members_of: "room_members s room = members_of (roomSubscribers s) room"
  by (simp add: room_members_def members_of_def)

lemma handleDisconnect_wf:
  "rooms_wf (roomSubscribers s) \<Longrightarrow> rooms_wf (roomSubscribers (fst (handleDisconnect now s socket)))"
  by (auto simp: handleDisconnect_def Let_def disconnect_rooms_wf split: option.splits prod.splits
      dest: disconnect_rooms_wf [where user = "the (sock_user socket)" and sid = "sock_id socket" and now = now])

subsection \<open>Runs\<close>

lemma ws_init_wf: "rooms_wf (roomSubscribers ws_init)"
  by (simp add: ws_init_def rooms_wf_def)

lemma viewer_counts_chat: "viewer_counts (fst (handleChatMessage now s socket streamId message)) = []"
  by (simp add: handleChatMessage_def viewer_counts_def Let_def split: option.splits)

lemma viewer_counts_reaction: "viewer_counts (fst (handleReaction now s socket streamId reaction)) = []"
  by (simp add: handleReaction_def viewer_counts_def Let_def split: option.splits)

lemma handleDisconnect_counts:
  assumes wf: "rooms_wf (roomSubscribers s)"
    and m: "(tgt, n) \<in> set (viewer_counts (snd (handleDisconnect now s socket)))"
  shows "\<exists>room. tgt = ToRoom room \<and> n = card (room_members (fst (handleDisconnect now s socket)) room)"
proof (cases "sock_user socket")
  case None
  with m show ?thesis by (simp add: handleDisconnect_def viewer_counts_def)
next
  case (Some user)
  let ?d = "disconnect_rooms user (sock_id socket) now (roomSubscribers s)"
  from Some have f: "roomSubscribers (fst (handleDisconnect now s socket)) = fst ?d"
    and e: "snd (handleDisconnect now s socket) = snd ?d"
    by (simp_all add: handleDisconnect_def Let_def split: prod.splits)
  from m e have "(tgt, n) \<in> set (viewer_counts (snd ?d))" by simp
  from disconnect_rooms_counts [OF wf this] f show ?thesis
    by (simp add: room_members_members_of)
qed

lemma disconnect_socket_parts:
  "roomSubscribers (fst (disconnect_socket now s sid)) =
     roomSubscribers (fst (handleDisconnect now (s\<lparr>rooms := socket_disconnect (rooms s) sid\<rparr>) (socket_of s sid)))"
  "rooms (fst (disconnect_socket now s sid)) =
     rooms (fst (handleDisconnect now (s\<lparr>rooms := socket_disconnect (rooms s) sid\<rparr>) (socket_of s sid)))"
  "sockets (fst (disconnect_socket now s sid)) =
     map_delete (sockets (fst (handleDisconnect now (s\<lparr>rooms := socket_disconnect (rooms s) sid\<rparr>)
       (socket_of s sid)))) sid"
  "snd (disconnect_socket now s sid) =
     snd (handleDisconnect now (s\<lparr>rooms := socket_disconnect (rooms s) sid\<rparr>) (socket_of s sid))"
  by (cases "handleDisconnect now (s\<lparr>rooms := socket_disconnect (rooms s) sid\<rparr>) (socket_of s sid)",
      simp add: disconnect_socket_def)+

lemma disconnect_socket_wf:
  "rooms_wf (roomSubscribers s) \<Longrightarrow> rooms_wf (roomSubscribers (fst (disconnect_socket now s sid)))"
  using handleDisconnect_wf [of "s\<lparr>rooms := socket_disconnect (rooms s) sid\<rparr>" now "socket_of s sid"]
  by (simp add: disconnect_socket_parts)

lemma disconnect_socket_counts:
  assumes wf: "rooms_wf (roomSubscribers s)"
    and m: "(tgt, n) \<in> set (viewer_counts (snd (disconnect_socket now s sid)))"
  shows "\<exists>room. tgt = ToRoom room \<and> n = card (room_members (fst (disconnect_socket now s sid)) room)"
proof -
  let ?s = "s\<lparr>rooms := socket_disconnect (rooms s) sid\<rparr>"
  from wf have "rooms_wf (roomSubscribers ?s)" by simp
  from handleDisconnect_counts [OF this, of tgt n now "socket_of s sid"] m
  show ?thesis by (simp add: disconnect_socket_parts room_members_def members_of_def)
qed

lemma authenticateSocket_parts:
  "roomSubscribers (fst (authenticateSocket verify users s sid token)) = roomSubscribers s"
  "rooms (fst (authenticateSocket verify users s sid token)) = rooms s"
  by (simp_all add: authenticateSocket_def Let_def split: option.splits)

lemma ws_step_authenticate:
  "fst (ws_step env s (Authenticate sid token)) =
     (case snd (authenticateSocket (env_verify env) (env_users env) s sid token) of
        Inr user \<Rightarrow> fst (authenticateSocket (env_verify env) (env_users env) s sid token)
      | Inl e \<Rightarrow> fst (disconnect_socket (env_now env)
                   (fst (authenticateSocket (env_verify env) (env_users env) s sid token)) sid))"
  "snd (ws_step env s (Authenticate sid token)) =
     (case snd (authenticateSocket (env_verify env) (env_users env) s sid token) of
        Inr user \<Rightarrow> []
      | Inl e \<Rightarrow> snd (disconnect_socket (env_now env)
                   (fst (authenticateSocket (env_verify env) (env_users env) s sid token)) sid))"
  by (cases "authenticateSocket (env_verify env) (env_users env) s sid token",
      simp split: sum.splits)+

lemma ws_step_join:
  "fst (ws_step env s (JoinStream sid streamId)) =
     fst (handleJoinStream (env_findById env) (env_activeStreams env) (env_now env) s (socket_of s sid) streamId)"
  "snd (ws_step env s (JoinStream sid streamId)) =
     fst (snd (handleJoinStream (env_findById env) (env_activeStreams env) (env_now env) s
       (socket_of s sid) streamId))"
  by (cases "handleJoinStream (env_findById env) (env_activeStreams env) (env_now env) s
        (socket_of s sid) streamId", simp)+

lemma ws_step_wf:
  assumes wf: "rooms_wf (roomSubscribers s)"
  shows "rooms_wf (roomSubscribers (fst (ws_step env s op)))"
proof (cases op)
  case (Authenticate sid token)
  let ?a = "authenticateSocket (env_verify env) (env_users env) s sid token"
  from wf have w: "rooms_wf (roomSubscribers (fst ?a))" by (simp add: authenticateSocket_parts)
  show ?thesis
  proof (cases "snd ?a")
    case (Inl e)
    with disconnect_socket_wf [OF w] show ?thesis
      unfolding Authenticate by (simp add: ws_step_authenticate del: ws_step.simps)
  next
    case (Inr u)
    with w show ?thesis unfolding Authenticate by (simp add: ws_step_authenticate del: ws_step.simps)
  qed
next
  case (JoinStream sid streamId)
  from handleJoinStream_wf [OF wf, of "env_findById env" "env_activeStreams env" "env_now env"
      "socket_of s sid" streamId]
  show ?thesis unfolding JoinStream by (simp only: ws_step_join)
next
  case (LeaveStream sid streamId)
  from wf show ?thesis unfolding LeaveStream by (simp add: leaveStream_wf)
next
  case (Disconnect sid)
  from wf show ?thesis unfolding Disconnect by (simp add: disconnect_socket_wf)
next
  case (SendChat sid streamId message)
  from wf show ?thesis unfolding SendChat by simp
next
  case (SendReaction sid streamId reaction)
  from wf show ?thesis unfolding SendReaction by simp
qed

lemma ws_run_wf:
  "rooms_wf (roomSubscribers s) \<Longrightarrow> rooms_wf (roomSubscribers (ws_run s ops))"
  by (induction s ops rule: ws_run.induct) (simp_all add: ws_step_wf)

lemma ws_step_counts:
  assumes wf: "rooms_wf (roomSubscribers s)"
    and m: "(tgt, n) \<in> set (viewer_counts (snd (ws_step env s op)))"
  shows "\<exists>room. tgt = ToRoom room \<and> n = card (room_members (fst (ws_step env s op)) room)"
proof (cases op)
  case (Authenticate sid token)
  let ?a = "authenticateSocket (env_verify env) (env_users env) s sid token"
  from wf have w: "rooms_wf (roomSubscribers (fst ?a))" by (simp add: authenticateSocket_parts)
  show ?thesis
  proof (cases "snd ?a")
    case (Inl e)
    with m disconnect_socket_counts [OF w, of tgt n "env_now env" sid] show ?thesis
      unfolding Authenticate by (simp add: ws_step_authenticate del: ws_step.simps)
  next
    case (Inr u)
    with m show ?thesis unfolding Authenticate by (simp add: ws_step_authenticate viewer_counts_def del: ws_step.simps)
  qed
next
  case (JoinStream sid streamId)
  let ?h = "handleJoinStream (env_findById env) (env_activeStreams env) (env_now env) s
      (socket_of s sid) streamId"
  have f: "fst (ws_step env s op) = fst ?h" and e: "snd (ws_step env s op) = fst (snd ?h)"
    unfolding JoinStream by (simp_all only: ws_step_join)
  from m e have "(tgt, n) \<in> set (viewer_counts (fst (snd ?h)))" by simp
  from handleJoinStream_counts [OF wf this] f show ?thesis by simp
next
  case (LeaveStream sid streamId)
  with m leaveStream_counts [OF wf, of tgt n "socket_of s sid" streamId] show ?thesis by simp
next
  case (Disconnect sid)
  with m disconnect_socket_counts [OF wf, of tgt n "env_now env" sid] show ?thesis by simp
next
  case (SendChat sid streamId message)
  with m show ?thesis by (simp add: viewer_counts_chat)
next
  case (SendReaction sid streamId reaction)
  with m show ?thesis by (simp add: viewer_counts_reaction)
qed


lemma ex_run: "ws_run ws_init ex_ops = ex_room"
  by (simp add: ex_ops_def ex_room_def ws_init_def ex_env_def ex_public_def ex_users_def ex_verify_def
      authenticateSocket_def socket_of_def handleJoinStream_def
      roomName_def socket_join_def map_has_def map_get_def map_set_def set_add_def set_size_def
      Let_def alice_def bob_def carol_def)


subsection \<open>The two views of room membership\<close>

lemma members_of_set:
  "members_of (map_set rs room subs) r = (if r = room then set subs else members_of rs r)"
  by (simp add: members_of_def map_get_set)

lemma members_of_delete:
  "members_of (map_delete rs room) r = (if r = room then {} else members_of rs r)"
  by (simp add: members_of_def map_get_delete)

lemma set_socket_join: "set (socket_join a sid room) = insert (sid, room) (set a)"
  by (auto simp: socket_join_def)

lemma set_socket_leave: "set (socket_leave a sid room) = set a - {(sid, room)}"
  by (simp add: socket_leave_def)

lemma set_socket_disconnect: "set (socket_disconnect a sid) = {p \<in> set a. fst p \<noteq> sid}"
  by (simp add: socket_disconnect_def)

lemma removeAll_NilD: "removeAll x xs = [] \<Longrightarrow> y \<in> set xs \<Longrightarrow> y = x"
proof -
  assume a: "removeAll x xs = []" and b: "y \<in> set xs"
  have "set (removeAll x xs) = set xs - {x}" by simp
  with a have "set xs - {x} = {}" by simp
  with b show ?thesis by blast
qed

lemma disconnect_rooms_members:
  "rooms_wf rs \<Longrightarrow>
     members_of (fst (disconnect_rooms user sid now rs)) r = members_of rs r - {sid}"
proof (induction rs)
  case Nil
  show ?case by (simp add: members_of_def map_get_def)
next
  case (Cons e rs)
  obtain room subs where e: "e = (room, subs)" by (cases e)
  let ?rest = "fst (disconnect_rooms user sid now rs)"
  from Cons.prems have p: "room \<notin> fst ` set rs" "rooms_wf rs"
    by (simp_all add: e rooms_wf_Cons)
  from p(1) disconnect_rooms_keys [of user sid now rs]
  have k: "room \<notin> fst ` set ?rest" by blast
  have ih: "members_of ?rest r = members_of rs r - {sid}" by (rule Cons.IH [OF p(2)])
  show ?case
  proof (cases "r = room")
    case True
    from k have "members_of ?rest room = {}" by (rule members_of_absent)
    then show ?thesis unfolding e disconnect_rooms_Cons True
      by (cases "removeAll sid subs = []") (auto simp: members_of_Cons dest: removeAll_NilD)
  next
    case False
    with ih show ?thesis unfolding e disconnect_rooms_Cons
      by (simp add: members_of_Cons)
  qed
qed

lemma handleJoinStream_success_state:
  assumes "handleJoinStream findById activeStreams now s socket streamId = (s', evs, Inr u)"
  shows "sock_user socket \<noteq> None \<and>
         rooms s' = socket_join (rooms s) (sock_id socket) (roomName streamId) \<and>
         sockets s' = sockets s"
  using assms
  by (auto simp: handleJoinStream_def Let_def split: option.splits if_splits)

lemma handleJoinStream_failure_state:
  assumes "handleJoinStream findById activeStreams now s socket streamId = (s', evs, Inl e)"
  shows "s' = s"
  using assms
  by (auto simp: handleJoinStream_def Let_def map_has_def map_get_def map_set_def update_conv'
      split: option.splits if_splits)

lemma handleJoinStream_sync:
  assumes sy: "ws_sync s"
  shows "ws_sync (fst (handleJoinStream findById activeStreams now s (socket_of s sid) streamId))"
proof -
  let ?h = "handleJoinStream findById activeStreams now s (socket_of s sid) streamId"
  obtain s' evs r where h: "?h = (s', evs, r)" by (cases ?h)
  show ?thesis
  proof (cases r)
    case (Inl e)
    with h sy show ?thesis by (auto dest: handleJoinStream_failure_state)
  next
    case (Inr u)
    let ?room = "roomName streamId"
    let ?subs = "case map_get (roomSubscribers s) ?room of None \<Rightarrow> [] | Some xs \<Rightarrow> xs"
    from h Inr have rs: "roomSubscribers s' = map_set (roomSubscribers s) ?room (set_add ?subs sid)"
      by (auto dest: handleJoinStream_success simp: socket_of_def)
    from h Inr have st: "map_has (sockets s) sid" "rooms s' = socket_join (rooms s) sid ?room"
      "sockets s' = sockets s"
      by (auto dest: handleJoinStream_success_state simp: socket_of_def map_has_def map_get_def)
    have ms: "set ?subs = members_of (roomSubscribers s) ?room"
      by (simp add: members_of_def split: option.splits)
    have m: "\<And>r. members_of (roomSubscribers s') r =
        (if r = ?room then insert sid (members_of (roomSubscribers s) ?room)
         else members_of (roomSubscribers s) r)"
      unfolding rs members_of_set using ms by (auto simp: set_add_def)
    from sy st show ?thesis
      unfolding h fst_conv ws_sync_def m st set_socket_join by auto
  qed
qed

lemma leaveStream_members:
  "members_of (roomSubscribers (fst (leaveStream s socket streamId))) r =
     (if r = roomName streamId then members_of (roomSubscribers s) r - {sock_id socket}
      else members_of (roomSubscribers s) r)"
proof (cases "map_get (roomSubscribers s) (roomName streamId)")
  case None
  then show ?thesis by (simp add: leaveStream_def Let_def members_of_def)
next
  case (Some subs)
  then have ms: "members_of (roomSubscribers s) (roomName streamId) = set subs"
    by (simp add: members_of_def)
  show ?thesis
  proof (cases "set_delete subs (sock_id socket) = []")
    case True
    with Some ms show ?thesis
      by (auto simp: leaveStream_def Let_def set_size_def map_delete_set members_of_delete
          set_delete_def dest: removeAll_NilD)
  next
    case False
    with Some ms show ?thesis
      by (auto simp: leaveStream_def Let_def set_size_def members_of_set set_delete_def)
  qed
qed

lemma leaveStream_state:
  "rooms (fst (leaveStream s socket streamId)) = socket_leave (rooms s) (sock_id socket) (roomName streamId)"
  "sockets (fst (leaveStream s socket streamId)) = sockets s"
  by (simp_all add: leaveStream_def Let_def split: option.splits)

lemma leaveStream_sync: "ws_sync s \<Longrightarrow> ws_sync (fst (leaveStream s socket streamId))"
  unfolding ws_sync_def leaveStream_members leaveStream_state set_socket_leave by auto

lemma handleDisconnect_state:
  "rooms (fst (handleDisconnect now s socket)) = rooms s"
  "sockets (fst (handleDisconnect now s socket)) = sockets s"
  by (simp_all add: handleDisconnect_def Let_def split: option.splits prod.splits)

lemma handleDisconnect_members:
  "rooms_wf (roomSubscribers s) \<Longrightarrow>
   members_of (roomSubscribers (fst (handleDisconnect now s socket))) r =
     (if sock_user socket = None then members_of (roomSubscribers s) r
      else members_of (roomSubscribers s) r - {sock_id socket})"
  by (cases "sock_user socket")
     (auto simp: handleDisconnect_def Let_def disconnect_rooms_members split: prod.splits
       dest!: arg_cong [where f = fst])

lemma map_has_set: "map_has (map_set m k v) k' \<longleftrightarrow> k' = k \<or> map_has m k'"
  by (simp add: map_has_def map_set_def update_conv')

lemma map_has_delete: "map_has (map_delete m k) k' \<longleftrightarrow> k' \<noteq> k \<and> map_has m k'"
  by (simp add: map_has_def map_delete_def delete_conv')

lemma authenticateSocket_sockets:
  "map_has (sockets s) x \<Longrightarrow> map_has (sockets (fst (authenticateSocket verify users s sid token))) x"
  by (simp add: authenticateSocket_def Let_def map_has_set split: option.splits)

lemma authenticateSocket_sync:
  "ws_sync s \<Longrightarrow> ws_sync (fst (authenticateSocket verify users s sid token))"
  unfolding ws_sync_def authenticateSocket_parts
  by (blast intro: authenticateSocket_sockets)

lemma disconnect_socket_sync:
  assumes wf: "rooms_wf (roomSubscribers s)" and sy: "ws_sync s"
  shows "ws_sync (fst (disconnect_socket now s sid))"
proof -
  let ?s1 = "s\<lparr>rooms := socket_disconnect (rooms s) sid\<rparr>"
  let ?s3 = "fst (disconnect_socket now s sid)"
  have r: "set (rooms ?s3) = {p \<in> set (rooms s). fst p \<noteq> sid}"
    by (simp add: disconnect_socket_parts handleDisconnect_state set_socket_disconnect)
  have k: "sockets ?s3 = map_delete (sockets s) sid"
    by (simp add: disconnect_socket_parts handleDisconnect_state)
  from wf have wf1: "rooms_wf (roomSubscribers ?s1)" by simp
  have m: "\<And>r. members_of (roomSubscribers ?s3) r =
      (if map_get (sockets s) sid = None then members_of (roomSubscribers s) r
       else members_of (roomSubscribers s) r - {sid})"
    by (simp add: disconnect_socket_parts handleDisconnect_members [OF wf1] socket_of_def)
  from sy have s1: "\<And>x room. (x, room) \<in> set (rooms s) \<longleftrightarrow> x \<in> members_of (roomSubscribers s) room"
    and s2: "\<And>x room. x \<in> members_of (roomSubscribers s) room \<Longrightarrow> map_has (sockets s) x"
    unfolding ws_sync_def by blast+
  show ?thesis
  proof (cases "map_get (sockets s) sid = None")
    case True
    then have "\<not> map_has (sockets s) sid" by (simp add: map_has_def map_get_def)
    with s2 have n: "\<And>x room. x \<in> members_of (roomSubscribers s) room \<Longrightarrow> x \<noteq> sid"
      by blast
    from True n s1 s2 show ?thesis
      unfolding ws_sync_def r k m map_has_delete by auto
  next
    case False
    with s1 s2 show ?thesis
      unfolding ws_sync_def r k m map_has_delete by auto
  qed
qed

lemma ws_step_sync:
  assumes wf: "rooms_wf (roomSubscribers s)" and sy: "ws_sync s"
  shows "ws_sync (fst (ws_step env s op))"
proof (cases op)
  case (Authenticate sid token)
  let ?a = "authenticateSocket (env_verify env) (env_users env) s sid token"
  from wf have w: "rooms_wf (roomSubscribers (fst ?a))" by (simp add: authenticateSocket_parts)
  from sy have y: "ws_sync (fst ?a)" by (rule authenticateSocket_sync)
  show ?thesis
  proof (cases "snd ?a")
    case (Inl e)
    with disconnect_socket_sync [OF w y] show ?thesis
      unfolding Authenticate by (simp add: ws_step_authenticate del: ws_step.simps)
  next
    case (Inr u)
    with y show ?thesis unfolding Authenticate by (simp add: ws_step_authenticate del: ws_step.simps)
  qed
next
  case (JoinStream sid streamId)
  from handleJoinStream_sync [OF sy] show ?thesis unfolding JoinStream by (simp only: ws_step_join)
next
  case (LeaveStream sid streamId)
  from sy show ?thesis unfolding LeaveStream by (simp add: leaveStream_sync)
next
  case (Disconnect sid)
  from wf sy show ?thesis unfolding Disconnect by (simp add: disconnect_socket_sync)
next
  case (SendChat sid streamId message)
  from sy show ?thesis unfolding SendChat by simp
next
  case (SendReaction sid streamId reaction)
  from sy show ?thesis unfolding SendReaction by simp
qed

lemma ws_run_inv:
  "rooms_wf (roomSubscribers s) \<and> ws_sync s \<Longrightarrow>
     rooms_wf (roomSubscribers (ws_run s ops)) \<and> ws_sync (ws_run s ops)"
  by (induction s ops rule: ws_run.induct) (simp_all add: ws_step_wf ws_step_sync)

lemma ws_init_sync: "ws_sync ws_init"
  by (simp add: ws_sync_def ws_init_def members_of_def map_get_def)

lemma ws_run_sync: "ws_sync (ws_run ws_init ops)"
  using ws_run_inv [of ws_init ops] by (simp add: ws_init_wf ws_init_sync)

lemma sync_room_sockets:
  "ws_sync s \<Longrightarrow> set (room_sockets (rooms s) room) = room_members s room"
  by (auto simp: ws_sync_def room_sockets_iff room_members_members_of)

lemma sync_socket_rooms:
  "ws_sync s \<Longrightarrow> room \<in> set (socket_rooms (rooms s) sid) \<longleftrightarrow> sid \<in> room_members s room"
  by (simp add: ws_sync_def socket_rooms_iff room_members_members_of)


subsection \<open>What join, leave and disconnect broadcast\<close>

lemma rooms_wf_has_iff:
  "rooms_wf (roomSubscribers s) \<Longrightarrow> map_has (roomSubscribers s) room \<longleftrightarrow> room_members s room \<noteq> {}"
  by (auto simp: room_members_def members_of_def map_has_def map_get_def split: option.splits
      dest: rooms_wf_entry [unfolded map_get_def])

lemma handleJoinStream_broadcast:
  assumes wf: "rooms_wf (roomSubscribers s)"
    and h: "handleJoinStream findById activeStreams now s socket streamId = (s', evs, Inr u)"
  shows "room_members s' (roomName streamId) = insert (sock_id socket) (room_members s (roomName streamId)) \<and>
         viewer_counts evs = [(ToRoom (roomName streamId), card (room_members s' (roomName streamId)))]"
proof -
  let ?room = "roomName streamId"
  let ?subs = "case map_get (roomSubscribers s) ?room of None \<Rightarrow> [] | Some xs \<Rightarrow> xs"
  let ?subs' = "set_add ?subs (sock_id socket)"
  from handleJoinStream_success [OF h]
  have e: "roomSubscribers s' = map_set (roomSubscribers s) ?room ?subs'"
    and v: "viewer_counts evs = [(ToRoom ?room, set_size ?subs')]"
    by simp_all
  have ms: "set ?subs = room_members s ?room"
    by (simp add: room_members_def members_of_def split: option.splits)
  have "distinct ?subs" using wf by (auto split: option.splits dest: rooms_wf_entry)
  then have d: "distinct ?subs'" by (rule set_add_distinct)
  from e have m: "room_members s' ?room = set ?subs'"
    by (simp add: room_members_def members_of_def map_get_set)
  with d have c: "card (room_members s' ?room) = set_size ?subs'"
    by (simp add: card_set_size)
  from m ms have "room_members s' ?room = insert (sock_id socket) (room_members s ?room)"
    by (auto simp: set_add_def)
  with v c show ?thesis by simp
qed

lemma leaveStream_emits:
  "map_get (roomSubscribers s) (roomName streamId) = Some subs \<Longrightarrow>
     viewer_counts (snd (leaveStream s socket streamId))
       = [(ToRoom (roomName streamId), set_size (set_delete subs (sock_id socket)))]"
  by (simp add: leaveStream_def Let_def viewer_counts_def)

lemma leaveStream_broadcast:
  assumes wf: "rooms_wf (roomSubscribers s)"
    and ne: "room_members s (roomName streamId) \<noteq> {}"
  shows "viewer_counts (snd (leaveStream s socket streamId))
       = [(ToRoom (roomName streamId),
           card (room_members (fst (leaveStream s socket streamId)) (roomName streamId)))]"
proof -
  from ne obtain subs where g: "map_get (roomSubscribers s) (roomName streamId) = Some subs"
    by (auto simp: room_members_def members_of_def split: option.splits)
  let ?n = "set_size (set_delete subs (sock_id socket))"
  from leaveStream_emits [OF g]
  have v: "viewer_counts (snd (leaveStream s socket streamId)) = [(ToRoom (roomName streamId), ?n)]" .
  then have "(ToRoom (roomName streamId), ?n) \<in> set (viewer_counts (snd (leaveStream s socket streamId)))"
    by simp
  from leaveStream_counts [OF wf this]
  have "?n = card (room_members (fst (leaveStream s socket streamId)) (roomName streamId))" by simp
  with v show ?thesis by simp
qed

lemma viewer_counts_Cons:
  "viewer_counts ((tgt, ViewerCount n) # evs) = (tgt, n) # viewer_counts evs"
  "viewer_counts ((tgt, UserLeft a b c) # evs) = viewer_counts evs"
  by (simp_all add: viewer_counts_def)

lemma disconnect_rooms_viewer_counts:
  "viewer_counts (snd (disconnect_rooms user sid now rs))
     = map (\<lambda>(room, subs). (ToRoom room, length (removeAll sid subs)))
         (filter (\<lambda>(room, subs). sid \<in> set subs) rs)"
proof (induction rs)
  case Nil
  show ?case by (simp add: viewer_counts_def)
next
  case (Cons e rs)
  obtain room subs where e: "e = (room, subs)" by (cases e)
  from Cons.IH show ?case
    unfolding e disconnect_rooms_Cons by (simp add: viewer_counts_Cons)
qed

lemma members_of_entry:
  "rooms_wf rs \<Longrightarrow> (room, subs) \<in> set rs \<Longrightarrow> members_of rs room = set subs"
  by (simp add: members_of_def map_get_def rooms_wf_def)

lemma members_of_memberD:
  "sid \<in> members_of rs room \<Longrightarrow> \<exists>subs. (room, subs) \<in> set rs \<and> sid \<in> set subs"
  by (auto simp: members_of_def map_get_def split: option.splits dest: map_of_SomeD)

lemma disconnect_rooms_card:
  assumes wf: "rooms_wf rs" and e: "(room, subs) \<in> set rs"
  shows "card (members_of (fst (disconnect_rooms user sid now rs)) room) = length (removeAll sid subs)"
proof -
  from wf e have d: "distinct subs" by (auto simp: rooms_wf_def list_all_iff)
  then have "distinct (removeAll sid subs)" by (simp add: distinct_removeAll)
  then have "card (set (removeAll sid subs)) = length (removeAll sid subs)" by (rule distinct_card)
  moreover have "members_of (fst (disconnect_rooms user sid now rs)) room = set (removeAll sid subs)"
    by (simp add: disconnect_rooms_members [OF wf] members_of_entry [OF wf e])
  ultimately show ?thesis by simp
qed

lemma disconnect_rooms_events:
  assumes wf: "rooms_wf rs"
  shows "set (viewer_counts (snd (disconnect_rooms user sid now rs)))
     = (\<lambda>room. (ToRoom room, card (members_of (fst (disconnect_rooms user sid now rs)) room)))
         ` {room. sid \<in> members_of rs room}"
proof (intro set_eqI iffI)
  fix x
  assume "x \<in> set (viewer_counts (snd (disconnect_rooms user sid now rs)))"
  then obtain room subs where e: "(room, subs) \<in> set rs" and m: "sid \<in> set subs"
    and x: "x = (ToRoom room, length (removeAll sid subs))"
    unfolding disconnect_rooms_viewer_counts by auto
  from m have "sid \<in> members_of rs room" by (simp add: members_of_entry [OF wf e])
  moreover from x have "x = (ToRoom room, card (members_of (fst (disconnect_rooms user sid now rs)) room))"
    by (simp add: disconnect_rooms_card [OF wf e])
  ultimately show "x \<in> (\<lambda>room. (ToRoom room, card (members_of (fst (disconnect_rooms user sid now rs)) room)))
         ` {room. sid \<in> members_of rs room}" by blast
next
  fix x
  assume "x \<in> (\<lambda>room. (ToRoom room, card (members_of (fst (disconnect_rooms user sid now rs)) room)))
         ` {room. sid \<in> members_of rs room}"
  then obtain room where r: "sid \<in> members_of rs room"
    and x: "x = (ToRoom room, card (members_of (fst (disconnect_rooms user sid now rs)) room))"
    by blast
  from members_of_memberD [OF r] obtain subs where e: "(room, subs) \<in> set rs" and m: "sid \<in> set subs"
    by blast
  from x have "x = (ToRoom room, length (removeAll sid subs))"
    by (simp add: disconnect_rooms_card [OF wf e])
  with e m show "x \<in> set (viewer_counts (snd (disconnect_rooms user sid now rs)))"
    unfolding disconnect_rooms_viewer_counts by force
qed

lemma disconnect_socket_members:
  assumes wf: "rooms_wf (roomSubscribers s)" and sy: "ws_sync s"
  shows "room_members (fst (disconnect_socket now s sid)) room = room_members s room - {sid}"
proof -
  let ?s1 = "s\<lparr>rooms := socket_disconnect (rooms s) sid\<rparr>"
  from wf have wf1: "rooms_wf (roomSubscribers ?s1)" by simp
  have m: "members_of (roomSubscribers (fst (disconnect_socket now s sid))) room =
      (if map_get (sockets s) sid = None then members_of (roomSubscribers s) room
       else members_of (roomSubscribers s) room - {sid})"
    by (simp add: disconnect_socket_parts handleDisconnect_members [OF wf1] socket_of_def)
  show ?thesis
  proof (cases "map_get (sockets s) sid = None")
    case True
    then have "\<not> map_has (sockets s) sid" by (simp add: map_has_def map_get_def)
    with sy have "sid \<notin> members_of (roomSubscribers s) room" unfolding ws_sync_def by blast
    with True m show ?thesis by (simp add: room_members_def)
  next
    case False
    with m show ?thesis by (simp add: room_members_def)
  qed
qed

lemma disconnect_socket_broadcast:
  assumes wf: "rooms_wf (roomSubscribers s)" and sy: "ws_sync s"
  shows "set (viewer_counts (snd (disconnect_socket now s sid)))
     = (\<lambda>room. (ToRoom room, card (room_members (fst (disconnect_socket now s sid)) room)))
         ` {room. sid \<in> room_members s room}"
proof (cases "map_get (sockets s) sid")
  case None
  then have "\<not> map_has (sockets s) sid" by (simp add: map_has_def map_get_def)
  with sy have "\<And>room. sid \<notin> members_of (roomSubscribers s) room" unfolding ws_sync_def by blast
  then have "{room. sid \<in> room_members s room} = {}" by (simp add: room_members_def)
  moreover from None have "snd (disconnect_socket now s sid) = []"
    by (simp add: disconnect_socket_parts handleDisconnect_def socket_of_def)
  ultimately show ?thesis by (simp add: viewer_counts_def)
next
  case (Some user)
  let ?d = "disconnect_rooms user sid now (roomSubscribers s)"
  from Some have e: "snd (disconnect_socket now s sid) = snd ?d"
    and f: "roomSubscribers (fst (disconnect_socket now s sid)) = fst ?d"
    by (simp_all add: disconnect_socket_parts handleDisconnect_def socket_of_def Let_def
        split: prod.splits)
  from disconnect_rooms_events [OF wf, of user sid now] show ?thesis
    by (simp add: e f room_members_def)
qed

text \<open>
  C2. Let the server be in any state that it reaches from its start by authenticate,
  join, leave, disconnect, chat and reaction events. A join that succeeds adds the socket
  to the member set of the room and broadcasts exactly one \<open>viewer-count\<close>, to that room,
  with the number of members of the room after the join. A leave from a room that has
  members broadcasts exactly one \<open>viewer-count\<close>, to that room, with the number of members
  after the leave. A disconnect broadcasts a \<open>viewer-count\<close> to exactly the rooms that the
  socket was a member of, each with the number of members of that room after the
  disconnect. And every \<open>viewer-count\<close> that any event emits goes to a room and carries the
  number of members that \<open>roomSubscribers\<close> holds for that room once the event is handled.
  A join that fails changes nothing and emits nothing, and a leave from a room without
  members emits nothing.
  The state has no counter: the count is the size of the member set, read at the emit.
\<close>

theorem viewer_count_is_membership:
  "s = ws_run ws_init ops \<Longrightarrow>
   (handleJoinStream findById activeStreams now s socket streamId = (s', evs, Inr ()) \<longrightarrow>
      room_members s' (roomName streamId) = insert (sock_id socket) (room_members s (roomName streamId)) \<and>
      viewer_counts evs = [(ToRoom (roomName streamId), card (room_members s' (roomName streamId)))]) \<and>
   (room_members s (roomName streamId) \<noteq> {} \<longrightarrow>
      viewer_counts (snd (leaveStream s socket streamId))
        = [(ToRoom (roomName streamId),
            card (room_members (fst (leaveStream s socket streamId)) (roomName streamId)))]) \<and>
   set (viewer_counts (snd (ws_step env s (Disconnect sid))))
     = (\<lambda>room. (ToRoom room, card (room_members (fst (ws_step env s (Disconnect sid))) room)))
         ` {room. sid \<in> room_members s room} \<and>
   (\<forall>tgt n. (tgt, n) \<in> set (viewer_counts (snd (ws_step env s op))) \<longrightarrow>
      (\<exists>room. tgt = ToRoom room \<and> n = card (room_members (fst (ws_step env s op)) room))) \<and>
   (handleJoinStream findById activeStreams now s socket streamId = (s', evs, Inl e) \<longrightarrow>
      s' = s \<and> evs = []) \<and>
   (room_members s (roomName streamId) = {} \<longrightarrow> snd (leaveStream s socket streamId) = [])"
proof -
  assume r: "s = ws_run ws_init ops"
  have wf: "rooms_wf (roomSubscribers s)" unfolding r by (rule ws_run_wf [OF ws_init_wf])
  have sy: "ws_sync s" unfolding r by (rule ws_run_sync)
  show ?thesis
  proof (intro conjI impI allI)
    assume "handleJoinStream findById activeStreams now s socket streamId = (s', evs, Inr ())"
    from handleJoinStream_broadcast [OF wf this]
    show "room_members s' (roomName streamId) = insert (sock_id socket) (room_members s (roomName streamId))"
      and "viewer_counts evs = [(ToRoom (roomName streamId), card (room_members s' (roomName streamId)))]"
      by simp_all
  next
    assume "room_members s (roomName streamId) \<noteq> {}"
    then show "viewer_counts (snd (leaveStream s socket streamId))
        = [(ToRoom (roomName streamId),
            card (room_members (fst (leaveStream s socket streamId)) (roomName streamId)))]"
      by (rule leaveStream_broadcast [OF wf])
  next
    show "set (viewer_counts (snd (ws_step env s (Disconnect sid))))
     = (\<lambda>room. (ToRoom room, card (room_members (fst (ws_step env s (Disconnect sid))) room)))
         ` {room. sid \<in> room_members s room}"
      using disconnect_socket_broadcast [OF wf sy, of "env_now env" sid] by simp
  next
    fix tgt n
    assume "(tgt, n) \<in> set (viewer_counts (snd (ws_step env s op)))"
    then show "\<exists>room. tgt = ToRoom room \<and> n = card (room_members (fst (ws_step env s op)) room)"
      by (rule ws_step_counts [OF wf])
  next
    assume f: "handleJoinStream findById activeStreams now s socket streamId = (s', evs, Inl e)"
    from handleJoinStream_failure_state [OF f] show "s' = s" .
    from handleJoinStream_failure [OF f] show "evs = []" by simp
  next
    assume "room_members s (roomName streamId) = {}"
    with rooms_wf_has_iff [OF wf, of "roomName streamId"]
    have "map_get (roomSubscribers s) (roomName streamId) = None"
      by (simp add: map_has_def map_get_def)
    then show "snd (leaveStream s socket streamId) = []"
      by (simp add: leaveStream_def Let_def)
  qed
qed

theorem viewer_count_is_membership_witness:
  "viewer_counts (fst (snd (handleJoinStream (env_findById ex_env) [] 7000 ex_room
       \<lparr>sock_id = ''s3'', sock_user = Some carol\<rparr> ''id1''))) = [(ToRoom ''stream:id1'', 3)] \<and>
   card (room_members (fst (handleJoinStream (env_findById ex_env) [] 7000 ex_room
       \<lparr>sock_id = ''s3'', sock_user = Some carol\<rparr> ''id1'')) ''stream:id1'') = 3 \<and>
   viewer_counts (snd (leaveStream ex_room (socket_of ex_room ''s2'') ''id1''))
     = [(ToRoom ''stream:id1'', 1)] \<and>
   card (room_members (fst (leaveStream ex_room (socket_of ex_room ''s2'') ''id1'')) ''stream:id1'') = 1 \<and>
   set (viewer_counts (snd (ws_step ex_env ex_room (Disconnect ''s1'')))) = {(ToRoom ''stream:id1'', 1)} \<and>
   card (room_members (fst (ws_step ex_env ex_room (Disconnect ''s1''))) ''stream:id1'') = 1"
proof -
  let ?sock3 = "\<lparr>sock_id = ''s3'', sock_user = Some carol\<rparr>"
  let ?sock2 = "socket_of ex_room ''s2''"
  let ?j = "handleJoinStream (env_findById ex_env) [] 7000 ex_room ?sock3 ''id1''"
  have run: "ex_room = ws_run ws_init ex_ops" by (simp add: ex_run)
  have n: "roomName ''id1'' = ''stream:id1''" by (simp add: roomName_def)
  have mem: "room_members ex_room (roomName ''id1'') = {''s1'', ''s2''}"
    by (simp add: room_members_def members_of_def map_get_def ex_room_def roomName_def)
  have ok: "snd (snd ?j) = Inr ()"
    by (simp add: handleJoinStream_def ex_env_def ex_public_def ex_room_def carol_def Let_def
        map_has_def map_get_def map_set_def)
  have vj: "viewer_counts (fst (snd ?j)) = [(ToRoom ''stream:id1'', 3)]"
    by (simp add: handleJoinStream_def ex_env_def ex_public_def ex_room_def carol_def Let_def
        map_has_def map_get_def map_set_def set_add_def set_size_def roomName_def viewer_counts_def)
  have vl: "viewer_counts (snd (leaveStream ex_room ?sock2 ''id1'')) = [(ToRoom ''stream:id1'', 1)]"
    by (simp add: leaveStream_def socket_of_def ex_room_def Let_def roomName_def
        map_get_def set_delete_def set_size_def viewer_counts_def)
  have vd: "viewer_counts (snd (ws_step ex_env ex_room (Disconnect ''s1''))) = [(ToRoom ''stream:id1'', 1)]"
    by (simp add: ex_room_def disconnect_socket_def handleDisconnect_def socket_of_def
        set_has_def set_delete_def set_size_def viewer_counts_def map_get_def map_set_def
        map_delete_def Let_def alice_def)
  have ne: "room_members ex_room (roomName ''id1'') \<noteq> {}" using mem by simp
  have jj: "?j = (fst ?j, fst (snd ?j), Inr ())" using ok by (cases ?j) simp
  note t = viewer_count_is_membership [OF run, where findById = "env_findById ex_env"
      and activeStreams = "[]" and now = 7000 and socket = ?sock3 and streamId = "''id1''"
      and s' = "fst ?j" and evs = "fst (snd ?j)"]
  from t [THEN conjunct1, THEN mp, OF jj, THEN conjunct2]
  have "viewer_counts (fst (snd ?j))
      = [(ToRoom (roomName ''id1''), card (room_members (fst ?j) (roomName ''id1'')))]" .
  with vj n have 1: "card (room_members (fst ?j) ''stream:id1'') = 3" by simp
  note u = viewer_count_is_membership [OF run, where socket = ?sock2 and streamId = "''id1''"
      and env = ex_env and sid = "''s1''" and op = "Disconnect ''s1''"]
  from u [THEN conjunct2, THEN conjunct1, THEN mp, OF ne]
  have "viewer_counts (snd (leaveStream ex_room ?sock2 ''id1''))
        = [(ToRoom (roomName ''id1''),
            card (room_members (fst (leaveStream ex_room ?sock2 ''id1'')) (roomName ''id1'')))]" .
  with vl n have 2: "card (room_members (fst (leaveStream ex_room ?sock2 ''id1'')) ''stream:id1'') = 1"
    by simp
  from vd have vm: "(ToRoom ''stream:id1'', 1) \<in> set (viewer_counts (snd (ws_step ex_env ex_room (Disconnect ''s1''))))"
    by simp
  from u [THEN conjunct2, THEN conjunct2, THEN conjunct2, THEN conjunct1, THEN spec, THEN spec, THEN mp,
      OF vm]
  have "\<exists>room. ToRoom ''stream:id1'' = ToRoom room \<and>
      1 = card (room_members (fst (ws_step ex_env ex_room (Disconnect ''s1''))) room)" .
  then have 3: "card (room_members (fst (ws_step ex_env ex_room (Disconnect ''s1''))) ''stream:id1'') = 1"
    by simp
  from vd have 4: "set (viewer_counts (snd (ws_step ex_env ex_room (Disconnect ''s1'')))) = {(ToRoom ''stream:id1'', 1)}"
    by simp
  from vj 1 vl 2 4 3 show ?thesis by (intro conjI)
qed

subsection \<open>Empty rooms\<close>

lemma handleJoinStream_fresh:
  assumes "\<not> map_has (roomSubscribers s) (roomName streamId)"
    and "handleJoinStream findById activeStreams now s socket streamId = (s', evs, Inr u)"
  shows "map_get (roomSubscribers s') (roomName streamId) = Some [sock_id socket] \<and>
         viewer_counts evs = [(ToRoom (roomName streamId), 1)]"
proof -
  from assms(1) have n: "map_get (roomSubscribers s) (roomName streamId) = None"
    by (simp add: map_has_def map_get_def)
  from handleJoinStream_success [OF assms(2)] n show ?thesis
    by (simp add: map_get_set set_add_def set_size_def)
qed

text \<open>
  C8. Let the server be in any state that it reaches from its start. A room is in
  \<open>roomSubscribers\<close> exactly when it has a member. A leave removes the socket from the
  member set of the room of the stream and leaves the other rooms as they are; a
  disconnect removes the socket from the member set of every room; and after either, a
  room is in the table exactly when it still has a member, so a room whose last member
  left or disconnected is no longer in the table. A join that succeeds on a stream whose
  room is not in the table creates the room with the joining socket as its only member
  and broadcasts the viewer count 1.
\<close>

theorem empty_rooms_are_pruned:
  "s = ws_run ws_init ops \<Longrightarrow>
   (\<forall>room. map_has (roomSubscribers s) room \<longleftrightarrow> room_members s room \<noteq> {}) \<and>
   (\<forall>room. room_members (fst (leaveStream s socket streamId)) room
        = (if room = roomName streamId then room_members s room - {sock_id socket}
           else room_members s room)) \<and>
   (\<forall>room. map_has (roomSubscribers (fst (leaveStream s socket streamId))) room
        \<longleftrightarrow> room_members (fst (leaveStream s socket streamId)) room \<noteq> {}) \<and>
   (\<forall>room. room_members (fst (ws_step env s (Disconnect sid))) room = room_members s room - {sid}) \<and>
   (\<forall>room. map_has (roomSubscribers (fst (ws_step env s (Disconnect sid)))) room
        \<longleftrightarrow> room_members (fst (ws_step env s (Disconnect sid))) room \<noteq> {}) \<and>
   (\<not> map_has (roomSubscribers s) (roomName streamId) \<and>
    handleJoinStream findById activeStreams now s socket streamId = (s', evs, Inr ()) \<longrightarrow>
      map_get (roomSubscribers s') (roomName streamId) = Some [sock_id socket] \<and>
      viewer_counts evs = [(ToRoom (roomName streamId), 1)])"
proof -
  assume r: "s = ws_run ws_init ops"
  have wf: "rooms_wf (roomSubscribers s)" unfolding r by (rule ws_run_wf [OF ws_init_wf])
  have sy: "ws_sync s" unfolding r by (rule ws_run_sync)
  have wl: "rooms_wf (roomSubscribers (fst (leaveStream s socket streamId)))"
    by (rule leaveStream_wf [OF wf])
  have wd: "rooms_wf (roomSubscribers (fst (ws_step env s (Disconnect sid))))"
    by (rule ws_step_wf [OF wf])
  show ?thesis
  proof (intro conjI allI impI)
    fix room
    show "map_has (roomSubscribers s) room \<longleftrightarrow> room_members s room \<noteq> {}"
      by (rule rooms_wf_has_iff [OF wf])
    show "room_members (fst (leaveStream s socket streamId)) room
        = (if room = roomName streamId then room_members s room - {sock_id socket}
           else room_members s room)"
      by (simp add: room_members_def leaveStream_members)
    show "map_has (roomSubscribers (fst (leaveStream s socket streamId))) room
        \<longleftrightarrow> room_members (fst (leaveStream s socket streamId)) room \<noteq> {}"
      by (rule rooms_wf_has_iff [OF wl])
    show "room_members (fst (ws_step env s (Disconnect sid))) room = room_members s room - {sid}"
      using disconnect_socket_members [OF wf sy, of "env_now env" sid room] by simp
    show "map_has (roomSubscribers (fst (ws_step env s (Disconnect sid)))) room
        \<longleftrightarrow> room_members (fst (ws_step env s (Disconnect sid))) room \<noteq> {}"
      by (rule rooms_wf_has_iff [OF wd])
  next
    assume a: "\<not> map_has (roomSubscribers s) (roomName streamId) \<and>
      handleJoinStream findById activeStreams now s socket streamId = (s', evs, Inr ())"
    then have a1: "\<not> map_has (roomSubscribers s) (roomName streamId)"
      and a2: "handleJoinStream findById activeStreams now s socket streamId = (s', evs, Inr ())"
      by simp_all
    have f: "map_get (roomSubscribers s') (roomName streamId) = Some [sock_id socket] \<and>
           viewer_counts evs = [(ToRoom (roomName streamId), 1)]"
      by (rule handleJoinStream_fresh [OF a1 a2])
    from f show "map_get (roomSubscribers s') (roomName streamId) = Some [sock_id socket]" by simp
    from f show "viewer_counts evs = [(ToRoom (roomName streamId), 1)]" by simp
  qed
qed

lemma ex_alone_run: "ws_run ws_init ex_alone_ops = ex_alone"
  by (simp add: ex_alone_ops_def ex_alone_def ws_init_def ex_env_def ex_public_def ex_users_def
      ex_verify_def authenticateSocket_def socket_of_def handleJoinStream_def
      roomName_def socket_join_def map_has_def map_get_def map_set_def set_add_def set_size_def
      Let_def alice_def bob_def carol_def)

lemma ws_run_append: "ws_run s (ops @ ops') = ws_run (ws_run s ops) ops'"
  by (induction s ops rule: ws_run.induct) simp_all

lemma ex_left_run: "ws_run ws_init ex_left_ops = ex_alone_left"
  unfolding ex_left_ops_def ws_run_append ex_alone_run
  by (simp add: ex_alone_def ex_alone_left_def socket_of_def leaveStream_def roomName_def
      socket_leave_def map_get_def map_set_def map_delete_def set_delete_def set_size_def Let_def)

theorem empty_rooms_are_pruned_witness:
  "room_members ex_alone ''stream:id1'' = {''s1''} \<and>
   room_members (fst (leaveStream ex_alone (socket_of ex_alone ''s1'') ''id1'')) ''stream:id1'' = {} \<and>
   \<not> map_has (roomSubscribers (fst (leaveStream ex_alone (socket_of ex_alone ''s1'') ''id1''))) ''stream:id1'' \<and>
   room_members (fst (ws_step ex_env ex_alone (Disconnect ''s1''))) ''stream:id1'' = {} \<and>
   \<not> map_has (roomSubscribers (fst (ws_step ex_env ex_alone (Disconnect ''s1'')))) ''stream:id1'' \<and>
   viewer_counts (snd (ws_step ex_env ex_alone_left (JoinStream ''s1'' ''id1'')))
     = [(ToRoom ''stream:id1'', 1)]"
proof -
  let ?sock = "socket_of ex_alone ''s1''"
  let ?sock' = "socket_of ex_alone_left ''s1''"
  have run: "ex_alone = ws_run ws_init ex_alone_ops" by (simp add: ex_alone_run)
  have run': "ex_alone_left = ws_run ws_init ex_left_ops" by (simp add: ex_left_run)
  have n: "roomName ''id1'' = ''stream:id1''" by (simp add: roomName_def)
  have i: "sock_id ?sock = ''s1''" by (simp add: socket_of_def)
  have mem: "room_members ex_alone ''stream:id1'' = {''s1''}"
    by (simp add: room_members_def members_of_def map_get_def ex_alone_def)
  note t = empty_rooms_are_pruned [OF run, where socket = ?sock and streamId = "''id1''"
      and env = ex_env and sid = "''s1''"]
  from t [THEN conjunct2, THEN conjunct1, THEN spec, of "''stream:id1''"]
  have "room_members (fst (leaveStream ex_alone ?sock ''id1'')) ''stream:id1''
      = (if ''stream:id1'' = roomName ''id1'' then room_members ex_alone ''stream:id1'' - {sock_id ?sock}
         else room_members ex_alone ''stream:id1'')" .
  with n i mem have 1: "room_members (fst (leaveStream ex_alone ?sock ''id1'')) ''stream:id1'' = {}"
    by simp
  from t [THEN conjunct2, THEN conjunct2, THEN conjunct1, THEN spec, of "''stream:id1''"]
  have "map_has (roomSubscribers (fst (leaveStream ex_alone ?sock ''id1''))) ''stream:id1''
      \<longleftrightarrow> room_members (fst (leaveStream ex_alone ?sock ''id1'')) ''stream:id1'' \<noteq> {}" .
  with 1 have 2: "\<not> map_has (roomSubscribers (fst (leaveStream ex_alone ?sock ''id1''))) ''stream:id1''"
    by simp
  from t [THEN conjunct2, THEN conjunct2, THEN conjunct2, THEN conjunct1, THEN spec, of "''stream:id1''"]
  have "room_members (fst (ws_step ex_env ex_alone (Disconnect ''s1''))) ''stream:id1''
      = room_members ex_alone ''stream:id1'' - {''s1''}" .
  with mem have 3: "room_members (fst (ws_step ex_env ex_alone (Disconnect ''s1''))) ''stream:id1'' = {}"
    by simp
  from t [THEN conjunct2, THEN conjunct2, THEN conjunct2, THEN conjunct2, THEN conjunct1, THEN spec,
      of "''stream:id1''"]
  have "map_has (roomSubscribers (fst (ws_step ex_env ex_alone (Disconnect ''s1'')))) ''stream:id1''
      \<longleftrightarrow> room_members (fst (ws_step ex_env ex_alone (Disconnect ''s1''))) ''stream:id1'' \<noteq> {}" .
  with 3 have 4: "\<not> map_has (roomSubscribers (fst (ws_step ex_env ex_alone (Disconnect ''s1'')))) ''stream:id1''"
    by simp
  have a: "\<not> map_has (roomSubscribers ex_alone_left) (roomName ''id1'')"
    by (simp add: ex_alone_left_def map_has_def)
  obtain s' evs where j: "handleJoinStream (env_findById ex_env) (env_activeStreams ex_env)
      (env_now ex_env) ex_alone_left ?sock' ''id1'' = (s', evs, Inr ())"
    by (simp add: handleJoinStream_def ex_env_def ex_public_def socket_of_def ex_alone_left_def
        alice_def Let_def map_has_def map_get_def map_set_def)
  note u = empty_rooms_are_pruned [OF run', where socket = ?sock' and streamId = "''id1''"
      and findById = "env_findById ex_env" and activeStreams = "env_activeStreams ex_env"
      and now = "env_now ex_env" and s' = s' and evs = evs]
  from u [THEN conjunct2, THEN conjunct2, THEN conjunct2, THEN conjunct2, THEN conjunct2, THEN mp,
      OF conjI [OF a j], THEN conjunct2]
  have "viewer_counts evs = [(ToRoom (roomName ''id1''), 1)]" .
  with j n have 5: "viewer_counts (snd (ws_step ex_env ex_alone_left (JoinStream ''s1'' ''id1'')))
     = [(ToRoom ''stream:id1'', 1)]" by simp
  from mem 1 2 3 4 5 show ?thesis by (intro conjI)
qed

section \<open>Chat messages and reactions\<close>

lemma trim_empty_iff: "trim s = [] \<longleftrightarrow> (\<forall>c\<in>set s. js_whitespace c)"
proof
  assume "trim s = []"
  then have a: "\<forall>x\<in>set (dropWhile js_whitespace s). js_whitespace x"
    by (simp add: trim_def dropWhile_eq_Nil_conv)
  have "dropWhile js_whitespace s = []"
  proof (rule ccontr)
    assume n: "dropWhile js_whitespace s \<noteq> []"
    then have "\<not> js_whitespace (hd (dropWhile js_whitespace s))" by (rule hd_dropWhile)
    moreover from n have "hd (dropWhile js_whitespace s) \<in> set (dropWhile js_whitespace s)" by simp
    ultimately show False using a by blast
  qed
  then show "\<forall>c\<in>set s. js_whitespace c" by (simp add: dropWhile_eq_Nil_conv)
next
  assume "\<forall>c\<in>set s. js_whitespace c"
  then have "dropWhile js_whitespace s = []" by (simp add: dropWhile_eq_Nil_conv)
  then show "trim s = []" unfolding trim_def by (simp only: rev.simps dropWhile.simps)
qed

lemma handleChatMessage_cases:
  "(sock_user socket = None \<longrightarrow>
      handleChatMessage now s socket streamId message = ([], Inl NotAuthenticated)) \<and>
   (\<forall>user. sock_user socket = Some user \<longrightarrow>
      (snd (handleChatMessage now s socket streamId message) = Inl MessageEmpty
         \<longleftrightarrow> (\<forall>c\<in>set message. js_whitespace c)) \<and>
      ((\<exists>c\<in>set message. \<not> js_whitespace c) \<and>
         roomName streamId \<notin> set (socket_rooms (rooms s) (sock_id socket)) \<longrightarrow>
         handleChatMessage now s socket streamId message = ([], Inl NotInRoom)) \<and>
      ((\<exists>c\<in>set message. \<not> js_whitespace c) \<and>
         roomName streamId \<in> set (socket_rooms (rooms s) (sock_id socket)) \<longrightarrow>
         handleChatMessage now s socket streamId message =
           ([(ToRoom (roomName streamId),
              ChatMessage \<lparr>cm_userId = u_id user, cm_username = u_username user,
                cm_userRole = u_role user, cm_avatar = u_profilePicture user,
                cm_message = trim message, cm_timestamp = now\<rparr>)],
            Inr \<lparr>cm_userId = u_id user, cm_username = u_username user,
                cm_userRole = u_role user, cm_avatar = u_profilePicture user,
                cm_message = trim message, cm_timestamp = now\<rparr>)) \<and>
      (fst (handleChatMessage now s socket streamId message) \<noteq> [] \<longrightarrow>
         (\<exists>c\<in>set message. \<not> js_whitespace c) \<and>
         roomName streamId \<in> set (socket_rooms (rooms s) (sock_id socket))))"
proof -
  have e: "(message = [] \<or> trim message = []) \<longleftrightarrow> (\<forall>c\<in>set message. js_whitespace c)"
    using trim_empty_iff [of message] by auto
  show ?thesis
  proof (cases "sock_user socket")
    case None
    then show ?thesis by (simp add: handleChatMessage_def)
  next
    case (Some u)
    show ?thesis
    proof (cases "\<forall>c\<in>set message. js_whitespace c")
      case True
      with Some e show ?thesis by (simp add: handleChatMessage_def)
    next
      case False
      with e have ne: "\<not> (message = [] \<or> trim message = [])" by blast
      show ?thesis
      proof (cases "roomName streamId \<in> set (socket_rooms (rooms s) (sock_id socket))")
        case True
        with Some False ne show ?thesis by (simp add: handleChatMessage_def Let_def)
      next
        case nr: False
        with Some False ne show ?thesis by (simp add: handleChatMessage_def Let_def)
      qed
    qed
  qed
qed

text \<open>
  C6 as stated fails for a socket that never authenticated: its request fails with
  'Not authenticated' before the text is looked at, so an empty text does not give the
  validation error.
\<close>

theorem chat_unauthenticated_counterexample:
  "snd (handleChatMessage 7000 ex_room \<lparr>sock_id = ''s9'', sock_user = None\<rparr> ''id1'' [])
     = Inl NotAuthenticated \<and>
   snd (handleChatMessage 7000 ex_room \<lparr>sock_id = ''s9'', sock_user = None\<rparr> ''id1'' [])
     \<noteq> Inl MessageEmpty"
  by (simp add: handleChatMessage_def)

text \<open>
  C6, amended. A chat-message request of a socket that has not authenticated fails
  with 'Not authenticated'. For an authenticated socket it fails with 'Message cannot be
  empty' exactly when the text is empty or consists of white space only; otherwise it
  fails with 'Not in the stream room' when the socket is not a member of the room of the stream;
  otherwise one message is emitted to the room, carrying the sender's id, name, role and
  avatar, the trimmed text and the time. Nothing is emitted unless both checks pass.
  The state is any state that the server reaches from its start, and the members of the
  room are those that \<open>roomSubscribers\<close> holds.
\<close>

theorem handleChatMessage_checks:
  "s = ws_run ws_init ops \<Longrightarrow>
   (sock_user socket = None \<longrightarrow>
      handleChatMessage now s socket streamId message = ([], Inl NotAuthenticated)) \<and>
   (\<forall>user. sock_user socket = Some user \<longrightarrow>
      (snd (handleChatMessage now s socket streamId message) = Inl MessageEmpty
         \<longleftrightarrow> (\<forall>c\<in>set message. js_whitespace c)) \<and>
      ((\<exists>c\<in>set message. \<not> js_whitespace c) \<and>
         sock_id socket \<notin> room_members s (roomName streamId) \<longrightarrow>
         handleChatMessage now s socket streamId message = ([], Inl NotInRoom)) \<and>
      ((\<exists>c\<in>set message. \<not> js_whitespace c) \<and>
         sock_id socket \<in> room_members s (roomName streamId) \<longrightarrow>
         handleChatMessage now s socket streamId message =
           ([(ToRoom (roomName streamId),
              ChatMessage \<lparr>cm_userId = u_id user, cm_username = u_username user,
                cm_userRole = u_role user, cm_avatar = u_profilePicture user,
                cm_message = trim message, cm_timestamp = now\<rparr>)],
            Inr \<lparr>cm_userId = u_id user, cm_username = u_username user,
                cm_userRole = u_role user, cm_avatar = u_profilePicture user,
                cm_message = trim message, cm_timestamp = now\<rparr>)) \<and>
      (fst (handleChatMessage now s socket streamId message) \<noteq> [] \<longrightarrow>
         (\<exists>c\<in>set message. \<not> js_whitespace c) \<and>
         sock_id socket \<in> room_members s (roomName streamId)))"
proof -
  assume "s = ws_run ws_init ops"
  then have "ws_sync s" by (simp add: ws_run_sync)
  then have m: "roomName streamId \<in> set (socket_rooms (rooms s) (sock_id socket))
      \<longleftrightarrow> sock_id socket \<in> room_members s (roomName streamId)"
    by (rule sync_socket_rooms)
  from handleChatMessage_cases [of socket now s streamId message] show ?thesis
    unfolding m .
qed

lemma ex_ws: "js_whitespace 32" "js_whitespace 9" "\<not> js_whitespace 104" "\<not> js_whitespace 105"
    by (simp_all add: js_whitespace_def)
lemma ex_trim: "trim ex_text = [104, 105]"
    by (simp add: trim_def ex_text_def ex_ws)
lemma ex_text_visible: "\<exists>c\<in>set ex_text. \<not> js_whitespace c"
    by (simp add: ex_text_def ex_ws)
lemma ex_blank: "\<forall>c\<in>set [32, 9]. js_whitespace c"
    by (simp add: ex_ws)
lemma ex_s1_in_room: "''s1'' \<in> room_members ex_room (roomName ''id1'')"
    by (simp add: roomName_def room_members_def members_of_def map_get_def ex_room_def)
lemma ex_s3_not_in_room: "''s3'' \<notin> room_members ex_room (roomName ''id1'')"
    by (simp add: roomName_def room_members_def members_of_def map_get_def ex_room_def)

theorem handleChatMessage_checks_witness:
  "snd (handleChatMessage 7000 ex_room \<lparr>sock_id = ''s1'', sock_user = Some alice\<rparr> ''id1'' [32, 9])
     = Inl MessageEmpty \<and>
   handleChatMessage 7000 ex_room \<lparr>sock_id = ''s3'', sock_user = Some carol\<rparr> ''id1'' ex_text
     = ([], Inl NotInRoom) \<and>
   fst (handleChatMessage 7000 ex_room \<lparr>sock_id = ''s1'', sock_user = Some alice\<rparr> ''id1'' ex_text)
     = [(ToRoom ''stream:id1'',
         ChatMessage \<lparr>cm_userId = ''u1'', cm_username = ''alice'', cm_userRole = RoleStreamer,
           cm_avatar = ''default.jpg'', cm_message = [104, 105], cm_timestamp = 7000\<rparr>)]"
proof -
  let ?s1 = "\<lparr>sock_id = ''s1'', sock_user = Some alice\<rparr>"
  let ?s3 = "\<lparr>sock_id = ''s3'', sock_user = Some carol\<rparr>"
  have u1: "sock_user ?s1 = Some alice" and u3: "sock_user ?s3 = Some carol" by simp_all
  have r1': "sock_id ?s1 \<in> room_members ex_room (roomName ''id1'')"
    using ex_s1_in_room by simp
  have r3': "sock_id ?s3 \<notin> room_members ex_room (roomName ''id1'')"
    using ex_s3_not_in_room by simp
  have run: "ex_room = ws_run ws_init ex_ops" by (simp add: ex_run)
  from handleChatMessage_checks [OF run, where socket = ?s1 and now = 7000
      and streamId = "''id1''" and message = "[32, 9]"] u1 ex_blank
  have 1: "snd (handleChatMessage 7000 ex_room ?s1 ''id1'' [32, 9]) = Inl MessageEmpty"
    by blast
  from handleChatMessage_checks [OF run, where socket = ?s3 and now = 7000
      and streamId = "''id1''" and message = ex_text] u3 ex_text_visible r3'
  have 2: "handleChatMessage 7000 ex_room ?s3 ''id1'' ex_text = ([], Inl NotInRoom)"
    by blast
  from handleChatMessage_checks [OF run, where socket = ?s1 and now = 7000
      and streamId = "''id1''" and message = ex_text] u1 ex_text_visible r1'
  have "handleChatMessage 7000 ex_room ?s1 ''id1'' ex_text =
           ([(ToRoom (roomName ''id1''),
              ChatMessage \<lparr>cm_userId = u_id alice, cm_username = u_username alice,
                cm_userRole = u_role alice, cm_avatar = u_profilePicture alice,
                cm_message = trim ex_text, cm_timestamp = 7000\<rparr>)],
            Inr \<lparr>cm_userId = u_id alice, cm_username = u_username alice,
                cm_userRole = u_role alice, cm_avatar = u_profilePicture alice,
                cm_message = trim ex_text, cm_timestamp = 7000\<rparr>)"
    by blast
  then have 3: "fst (handleChatMessage 7000 ex_room ?s1 ''id1'' ex_text)
     = [(ToRoom ''stream:id1'',
         ChatMessage \<lparr>cm_userId = ''u1'', cm_username = ''alice'', cm_userRole = RoleStreamer,
           cm_avatar = ''default.jpg'', cm_message = [104, 105], cm_timestamp = 7000\<rparr>)]"
    by (simp add: ex_trim alice_def roomName_def)
  from 1 2 3 show ?thesis by blast
qed
lemma handleChatMessage_success:
  "handleChatMessage now s socket streamId message = (evs, Inr msg) \<Longrightarrow>
     evs = [(ToRoom (roomName streamId), ChatMessage msg)] \<and>
     roomName streamId \<in> set (socket_rooms (rooms s) (sock_id socket))"
  by (auto simp: handleChatMessage_def Let_def split: option.splits if_splits)

lemma handleReaction_success:
  "handleReaction now s socket streamId reaction = (evs, Inr u) \<Longrightarrow>
     (\<exists>ev. evs = [(ToRoomExcept (roomName streamId) (sock_id socket), ev)]) \<and>
     roomName streamId \<in> set (socket_rooms (rooms s) (sock_id socket))"
  by (auto simp: handleReaction_def Let_def split: option.splits if_splits)

text \<open>
  C7. In every state that the server reaches, a chat message that succeeds is emitted
  once, to the room of the stream, and its recipients are exactly the members of the
  room that \<open>roomSubscribers\<close> holds, the sender among them; a reaction that succeeds is
  emitted once, to the room except the sender, and its recipients are exactly the members
  of the room other than the sender, who is a member.
\<close>

theorem chat_and_reaction_recipients:
  "s = ws_run ws_init ops \<Longrightarrow>
   (handleChatMessage now s socket streamId message = (evs, Inr msg) \<longrightarrow>
      evs = [(ToRoom (roomName streamId), ChatMessage msg)] \<and>
      set (recipients (rooms s) (ToRoom (roomName streamId)))
        = room_members s (roomName streamId) \<and>
      sock_id socket \<in> room_members s (roomName streamId)) \<and>
   (handleReaction now s socket streamId reaction = (evs', Inr ()) \<longrightarrow>
      (\<exists>ev. evs' = [(ToRoomExcept (roomName streamId) (sock_id socket), ev)]) \<and>
      set (recipients (rooms s) (ToRoomExcept (roomName streamId) (sock_id socket)))
        = room_members s (roomName streamId) - {sock_id socket} \<and>
      sock_id socket \<in> room_members s (roomName streamId))"
proof -
  assume "s = ws_run ws_init ops"
  then have sy: "ws_sync s" by (simp add: ws_run_sync)
  have m: "set (room_sockets (rooms s) (roomName streamId)) = room_members s (roomName streamId)"
    by (rule sync_room_sockets [OF sy])
  have i: "roomName streamId \<in> set (socket_rooms (rooms s) (sock_id socket))
      \<longleftrightarrow> sock_id socket \<in> room_members s (roomName streamId)"
    by (rule sync_socket_rooms [OF sy])
  show ?thesis
  proof (intro conjI impI)
    assume a: "handleChatMessage now s socket streamId message = (evs, Inr msg)"
    from handleChatMessage_success [OF a]
    show "evs = [(ToRoom (roomName streamId), ChatMessage msg)]" by simp
    show "set (recipients (rooms s) (ToRoom (roomName streamId)))
        = room_members s (roomName streamId)" using m by simp
    from handleChatMessage_success [OF a] i
    show "sock_id socket \<in> room_members s (roomName streamId)" by simp
  next
    assume a: "handleReaction now s socket streamId reaction = (evs', Inr ())"
    from handleReaction_success [OF a]
    show "\<exists>ev. evs' = [(ToRoomExcept (roomName streamId) (sock_id socket), ev)]" by simp
    show "set (recipients (rooms s) (ToRoomExcept (roomName streamId) (sock_id socket)))
        = room_members s (roomName streamId) - {sock_id socket}" using m by auto
    from handleReaction_success [OF a] i
    show "sock_id socket \<in> room_members s (roomName streamId)" by simp
  qed
qed

theorem chat_and_reaction_recipients_witness:
  "handleChatMessage 7000 ex_room \<lparr>sock_id = ''s1'', sock_user = Some alice\<rparr> ''id1'' ex_text
     = ([(ToRoom ''stream:id1'',
         ChatMessage \<lparr>cm_userId = ''u1'', cm_username = ''alice'', cm_userRole = RoleStreamer,
           cm_avatar = ''default.jpg'', cm_message = [104, 105], cm_timestamp = 7000\<rparr>)],
        Inr \<lparr>cm_userId = ''u1'', cm_username = ''alice'', cm_userRole = RoleStreamer,
           cm_avatar = ''default.jpg'', cm_message = [104, 105], cm_timestamp = 7000\<rparr>) \<and>
   set (recipients (rooms ex_room) (ToRoom (roomName ''id1''))) = {''s1'', ''s2''} \<and>
   handleReaction 7000 ex_room \<lparr>sock_id = ''s1'', sock_user = Some alice\<rparr> ''id1'' ''heart''
     = ([(ToRoomExcept ''stream:id1'' ''s1'', Reaction ''u1'' ''alice'' ''heart'' 7000)], Inr ()) \<and>
   set (recipients (rooms ex_room) (ToRoomExcept (roomName ''id1'') ''s1'')) = {''s2''}"
proof -
  let ?s1 = "\<lparr>sock_id = ''s1'', sock_user = Some alice\<rparr>"
  let ?msg = "\<lparr>cm_userId = ''u1'', cm_username = ''alice'', cm_userRole = RoleStreamer,
           cm_avatar = ''default.jpg'', cm_message = [104, 105], cm_timestamp = 7000\<rparr>"
  have ws: "js_whitespace 32" "\<not> js_whitespace 104" "\<not> js_whitespace 105"
    by (simp_all add: js_whitespace_def)
  have t: "trim ex_text = [104, 105]" "ex_text \<noteq> []"
    by (simp_all add: trim_def ex_text_def ws)
  have c: "handleChatMessage 7000 ex_room ?s1 ''id1'' ex_text
     = ([(ToRoom ''stream:id1'', ChatMessage ?msg)], Inr ?msg)"
    by (simp add: handleChatMessage_def t roomName_def socket_rooms_def ex_room_def alice_def Let_def)
  have r: "handleReaction 7000 ex_room ?s1 ''id1'' ''heart''
     = ([(ToRoomExcept ''stream:id1'' ''s1'', Reaction ''u1'' ''alice'' ''heart'' 7000)], Inr ())"
    by (simp add: handleReaction_def roomName_def socket_rooms_def ex_room_def alice_def Let_def)
  have m: "room_members ex_room (roomName ''id1'') = {''s1'', ''s2''}"
    by (simp add: room_members_def members_of_def map_get_def ex_room_def roomName_def)
  have run: "ex_room = ws_run ws_init ex_ops" by (simp add: ex_run)
  have d: "{''s1'', ''s2''} - {''s1''} = {''s2''}" by auto
  have i: "sock_id ?s1 = ''s1''" by simp
  note th = chat_and_reaction_recipients [OF run, where now = 7000 and streamId = "''id1''"
      and socket = ?s1 and message = ex_text and reaction = "''heart''", unfolded i m d]
  from th c have 1: "set (recipients (rooms ex_room) (ToRoom (roomName ''id1''))) = {''s1'', ''s2''}"
    by blast
  from th r have 2: "set (recipients (rooms ex_room) (ToRoomExcept (roomName ''id1'') ''s1'')) = {''s2''}"
    by blast
  from c r 1 2 show ?thesis by blast
qed

end
